theory Spec2Isabelle
  imports Complex_Main "HOL-Library.Word"
begin

unbundle bit_operations_syntax

section \<open>The AS5048A protocol driver (src/src/AS5048A.cpp)\<close>

text \<open>
  The C++ types \<open>uint8_t\<close>, \<open>uint16_t\<close>/\<open>int16_t\<close> and \<open>int32_t\<close> are words of
  8, 16 and 32 bits; \<open>sint\<close> reads a word as the signed type does, \<open>uint\<close>/\<open>unat\<close>
  as the unsigned one.
\<close>

type_synonym uint8_t = "8 word"
type_synonym uint16_t = "16 word"
type_synonym int32_t = "32 word"

text \<open>
  The members of class \<open>AS5048A\<close> that the driver's arithmetic reads and writes. The chip
  select pin, the SPI settings, the debug switch and the embedded filter only drive the
  hardware and the serial log.
\<close>

record AS5048A =
  errorFlag :: bool
  ocfFlag :: bool
  position :: uint16_t
  prevRaw :: uint16_t
  prevRawinitialized :: bool
  revCount :: int32_t

definition AS5048A_ANGLE :: uint16_t where
  "AS5048A_ANGLE = 0x3FFF"

text \<open>
  Modelled from the spec: the constants \<open>FULL_SCALE\<close> and \<open>HALF_SCALE\<close> are declared in
  AS5048A.hpp, which is not among the sources. The spec gives 16384 for the full scale of
  the 14-bit reading and 8192 for half of it, compared as signed integers.
\<close>

definition FULL_SCALE :: int where
  "FULL_SCALE = 16384"

definition HALF_SCALE :: int where
  "HALF_SCALE = 8192"

subsection \<open>Parity\<close>

text \<open>
  \<open>spiCalcEvenParity\<close>: the loop runs 16 times; each pass adds one to the \<open>uint8_t\<close>
  counter when bit 0 of the value is set and shifts the value right by one.
\<close>

fun spiCalcEvenParity_loop :: "nat \<Rightarrow> uint16_t \<Rightarrow> uint8_t \<Rightarrow> uint8_t" where
  "spiCalcEvenParity_loop 0 v cnt = cnt"
| "spiCalcEvenParity_loop (Suc n) v cnt =
     spiCalcEvenParity_loop n (drop_bit 1 v) (if v AND 0x1 \<noteq> 0 then cnt + 1 else cnt)"

definition spiCalcEvenParity :: "uint16_t \<Rightarrow> uint8_t" where
  "spiCalcEvenParity v = spiCalcEvenParity_loop 16 v 0 AND 0x1"

text \<open>
  The compiler builtin \<open>__builtin_parity\<close> takes an \<open>unsigned int\<close> and returns 1 when
  the number of its 1-bits is odd, 0 otherwise. \<open>set_bits n x\<close> counts the 1-bits among
  the low \<open>n\<close> bits of \<open>x\<close>.
\<close>

definition set_bits :: "nat \<Rightarrow> 'a::len word \<Rightarrow> nat" where
  "set_bits n x = length (filter (bit x) [0..<n])"

definition builtin_parity :: "32 word \<Rightarrow> nat" where
  "builtin_parity x = set_bits 32 x mod 2"

definition spiCheckParity :: "uint16_t \<Rightarrow> uint8_t" where
  "spiCheckParity v =
     (let parityBit = (ucast (drop_bit 15 v AND 0x01) :: uint8_t);
          data = v AND 0x7FFF;
          dataParity = (of_nat (builtin_parity (ucast data)) :: uint8_t)
      in if parityBit = dataParity then 1 else 0)"

subsection \<open>Reading a register\<close>

text \<open>
  The command word \<open>read\<close> sends: the read bit 0x4000, the register address and the parity
  of both in bit 15.
\<close>

definition read_command :: "uint16_t \<Rightarrow> uint16_t" where
  "read_command registerAddress =
     (let command = 0x4000 OR registerAddress
      in command OR push_bit 0xF (ucast (spiCalcEvenParity command)))"

text \<open>
  \<open>read\<close>: the word \<open>response\<close> is what the second \<open>SPI.transfer16\<close> returns; the bus is
  outside the program, so the word is an argument. The test of the error bit is written
  as the source has it, with \<open>0x01 >> 14\<close>.
\<close>

definition read :: "uint16_t \<Rightarrow> uint16_t \<Rightarrow> AS5048A \<Rightarrow> uint16_t \<times> AS5048A" where
  "read registerAddress response s =
     (if response AND drop_bit 14 0x01 \<noteq> 0 \<or> spiCheckParity response = 0
      then (response AND NOT 0xC000, s\<lparr>errorFlag := True\<rparr>)
      else (response AND NOT 0xC000, s\<lparr>errorFlag := False\<rparr>))"

definition getRawRotation :: "uint16_t \<Rightarrow> AS5048A \<Rightarrow> uint16_t \<times> AS5048A" where
  "getRawRotation response s = read AS5048A_ANGLE response s"

definition error :: "AS5048A \<Rightarrow> bool" where
  "error s = errorFlag s"

subsection \<open>The zero position\<close>

definition setZeroPosition :: "uint16_t \<Rightarrow> AS5048A \<Rightarrow> AS5048A" where
  "setZeroPosition p s = s\<lparr>position := p mod 0x3FFF\<rparr>"

definition getZeroPosition :: "AS5048A \<Rightarrow> uint16_t" where
  "getZeroPosition s = position s"

subsection \<open>Unwrapping the angle\<close>

text \<open>
  \<open>getRotationUnwrapped\<close>, statement by statement. \<open>delta\<close> is an \<open>int16_t\<close>: the
  difference of the two 16-bit values, read as signed. The product and the sums of the
  result are \<open>int32_t\<close> arithmetic.
\<close>

definition getRotationUnwrapped :: "uint16_t \<Rightarrow> AS5048A \<Rightarrow> int32_t \<times> AS5048A" where
  "getRotationUnwrapped response s =
     (let (raw0, s1) = getRawRotation response s;
          raw1 = (if errorFlag s1 then prevRaw s1 else raw0);
          raw2 = (if raw1 = 0 then prevRaw s1 else raw1);
          raw = (if uint raw2 \<ge> FULL_SCALE then prevRaw s1 else raw2);
          s2 = (if \<not> prevRawinitialized s1
                then s1\<lparr>prevRawinitialized := True, prevRaw := raw, revCount := -1\<rparr>
                else s1);
          delta = raw - prevRaw s2;
          s3 = (if sint delta > HALF_SCALE then s2\<lparr>revCount := revCount s2 - 1\<rparr>
                else if sint delta < - HALF_SCALE then s2\<lparr>revCount := revCount s2 + 1\<rparr>
                else s2);
          s4 = s3\<lparr>prevRaw := raw\<rparr>;
          continuous = revCount s4 * word_of_int FULL_SCALE + ucast raw
      in (continuous - ucast (position s4) - word_of_int HALF_SCALE, s4))"

text \<open>
  A command or response word with its parity bit put in place: bit 15 of \<open>v\<close> is replaced
  by \<open>spiCalcEvenParity\<close> of the low 15 bits, as \<open>read\<close> and \<open>write\<close> do on words whose
  bit 15 is clear.
\<close>

definition with_parity :: "uint16_t \<Rightarrow> uint16_t" where
  "with_parity v = (v AND 0x7FFF) OR push_bit 15 (ucast (spiCalcEvenParity (v AND 0x7FFF)))"

text \<open>
  The value \<open>getRotationUnwrapped\<close> returns, read off the state it leaves:
  \<open>revCount * FULL_SCALE + prevRaw - position - HALF_SCALE\<close>.
\<close>

definition unwrapped_of :: "AS5048A \<Rightarrow> int32_t" where
  "unwrapped_of s = revCount s * word_of_int FULL_SCALE + ucast (prevRaw s)
                     - ucast (position s) - word_of_int HALF_SCALE"

text \<open>
  Two concrete driver states for evaluating the functions: one that has already taken a
  sample (raw reading 5000, no revolution counted) and one that has not.
\<close>

definition example_running :: AS5048A where
  "example_running = \<lparr>errorFlag = False, ocfFlag = False, position = 0, prevRaw = 5000,
     prevRawinitialized = True, revCount = 0\<rparr>"

definition example_uninitialized :: AS5048A where
  "example_uninitialized = \<lparr>errorFlag = False, ocfFlag = False, position = 0, prevRaw = 0,
     prevRawinitialized = False, revCount = 0\<rparr>"

section \<open>The discrete filter (class DiscreteFilter) and the Butterworth design (namespace filter)\<close>

subsection \<open>Values of type \<open>float\<close>\<close>

text \<open>
  The element type \<open>T\<close> of the filter is \<open>float\<close>. A \<open>float\<close> is a finite number, a
  negative zero, an infinity (\<open>Infinity True\<close> is the negative one) or a NaN; \<open>Finite 0\<close> is
  the positive zero. The special values follow IEEE 754. On finite values the arithmetic is
  that of the real numbers: rounding, overflow and underflow are left out.
\<close>

datatype float = Finite real | NegZero | Infinity bool | NaN

fun is_NaN :: "float \<Rightarrow> bool" where
  "is_NaN NaN = True"
| "is_NaN _ = False"

fun is_Infinity :: "float \<Rightarrow> bool" where
  "is_Infinity (Infinity s) = True"
| "is_Infinity _ = False"

fun is_zero :: "float \<Rightarrow> bool" where
  "is_zero (Finite x) = (x = 0)"
| "is_zero NegZero = True"
| "is_zero _ = False"

fun is_finite :: "float \<Rightarrow> bool" where
  "is_finite (Finite x) = True"
| "is_finite NegZero = True"
| "is_finite _ = False"

text \<open>The sign bit (\<open>True\<close> for negative) and the numeric value of a finite \<open>float\<close>.\<close>

fun float_sign :: "float \<Rightarrow> bool" where
  "float_sign (Finite x) = (x < 0)"
| "float_sign NegZero = True"
| "float_sign (Infinity s) = s"
| "float_sign NaN = False"

fun float_value :: "float \<Rightarrow> real" where
  "float_value (Finite x) = x"
| "float_value _ = 0"

definition float_zero :: "bool \<Rightarrow> float" where
  "float_zero s = (if s then NegZero else Finite 0)"

definition fmul :: "float \<Rightarrow> float \<Rightarrow> float" where
  "fmul a b =
     (if is_NaN a \<or> is_NaN b then NaN
      else if (is_Infinity a \<and> is_zero b) \<or> (is_zero a \<and> is_Infinity b) then NaN
      else if is_Infinity a \<or> is_Infinity b then Infinity (float_sign a \<noteq> float_sign b)
      else if is_zero a \<or> is_zero b then float_zero (float_sign a \<noteq> float_sign b)
      else Finite (float_value a * float_value b))"

definition fadd :: "float \<Rightarrow> float \<Rightarrow> float" where
  "fadd a b =
     (if is_NaN a \<or> is_NaN b then NaN
      else if is_Infinity a \<and> is_Infinity b
        then (if float_sign a = float_sign b then a else NaN)
      else if is_Infinity a then a
      else if is_Infinity b then b
      else if is_zero a \<and> is_zero b then float_zero (float_sign a \<and> float_sign b)
      else Finite (float_value a + float_value b))"

fun fneg :: "float \<Rightarrow> float" where
  "fneg (Finite x) = (if x = 0 then NegZero else Finite (- x))"
| "fneg NegZero = Finite 0"
| "fneg (Infinity s) = Infinity (\<not> s)"
| "fneg NaN = NaN"

definition fsub :: "float \<Rightarrow> float \<Rightarrow> float" where
  "fsub a b = fadd a (fneg b)"

definition fdiv :: "float \<Rightarrow> float \<Rightarrow> float" where
  "fdiv a b =
     (if is_NaN a \<or> is_NaN b then NaN
      else if is_Infinity a \<and> is_Infinity b then NaN
      else if is_zero a \<and> is_zero b then NaN
      else if is_Infinity a then Infinity (float_sign a \<noteq> float_sign b)
      else if is_Infinity b then float_zero (float_sign a \<noteq> float_sign b)
      else if is_zero b then Infinity (float_sign a \<noteq> float_sign b)
      else if is_zero a then float_zero (float_sign a \<noteq> float_sign b)
      else Finite (float_value a / float_value b))"

subsection \<open>The filter runtime\<close>

text \<open>
  A \<open>std::array<T, SIZE>\<close> is a list of length \<open>SIZE\<close>; the template parameter \<open>SIZE\<close> is an
  argument of the functions.
\<close>

record Coefficients =
  naturalResponseCoefficients :: "float list"
  forcedResponseCoefficients :: "float list"

record DiscreteFilter = Coefficients +
  naturalResponse :: "float list"
  forcedResponse :: "float list"

text \<open>The loop \<open>for (int i = SIZE - 1; i > 0; i--) h[i] = h[i - 1]\<close>, started at \<open>i\<close>.\<close>

fun shift_history :: "nat \<Rightarrow> 'a list \<Rightarrow> 'a list" where
  "shift_history 0 h = h"
| "shift_history (Suc i) h = shift_history i (h[Suc i := h ! i])"

definition reset :: "nat \<Rightarrow> DiscreteFilter \<Rightarrow> float \<times> DiscreteFilter" where
  "reset SIZE f =
     (Finite 0, f\<lparr>naturalResponse := replicate SIZE (Finite 0),
                   forcedResponse := replicate SIZE (Finite 0)\<rparr>)"

definition fill :: "nat \<Rightarrow> float \<Rightarrow> DiscreteFilter \<Rightarrow> float \<times> DiscreteFilter" where
  "fill SIZE v f =
     (v, f\<lparr>naturalResponse := replicate SIZE v, forcedResponse := replicate SIZE v\<rparr>)"

text \<open>The constructor from a \<open>Coefficients\<close> value: it copies both arrays and calls \<open>reset\<close>.\<close>

definition DiscreteFilter :: "nat \<Rightarrow> Coefficients \<Rightarrow> DiscreteFilter" where
  "DiscreteFilter SIZE coefficients =
     snd (reset SIZE \<lparr>naturalResponseCoefficients = naturalResponseCoefficients coefficients,
                      forcedResponseCoefficients = forcedResponseCoefficients coefficients,
                      naturalResponse = [], forcedResponse = []\<rparr>)"

definition filterData :: "nat \<Rightarrow> float \<Rightarrow> DiscreteFilter \<Rightarrow> float \<times> DiscreteFilter" where
  "filterData SIZE dat f =
     (let fr = (shift_history (SIZE - 1) (forcedResponse f))[0 := dat];
          sum1 = fold (\<lambda>i s. fadd s (fmul (forcedResponseCoefficients f ! i) (fr ! i)))
                   [0..<SIZE] (Finite 0);
          sum2 = fold (\<lambda>i s. fsub s (fmul (naturalResponseCoefficients f ! (i + 1))
                                        (naturalResponse f ! i)))
                   [0..<SIZE - 1] sum1;
          sum3 = fdiv sum2 (naturalResponseCoefficients f ! 0);
          nr = (shift_history (SIZE - 1) (naturalResponse f))[0 := sum3]
      in (nr ! 0, f\<lparr>naturalResponse := nr, forcedResponse := fr\<rparr>))"

text \<open>Feeding a sequence of samples, one \<open>filterData\<close> call each; the outputs in order.\<close>

fun filterData_all :: "nat \<Rightarrow> float list \<Rightarrow> DiscreteFilter \<Rightarrow> float list \<times> DiscreteFilter" where
  "filterData_all SIZE [] f = ([], f)"
| "filterData_all SIZE (x # xs) f =
     (let (y, f') = filterData SIZE x f;
          (ys, f'') = filterData_all SIZE xs f'
      in (y # ys, f''))"

text \<open>
  The numerator of the difference equation as the specification words it,
  \<open>\<Sum>k\<ge>0. b\<^sub>k x[n-k] - \<Sum>k\<ge>1. a\<^sub>k y[n-k]\<close>, where \<open>x[n]\<close> is the new sample and the
  histories hold the earlier inputs and outputs; the terms are taken in the order of \<open>k\<close>.
\<close>

definition difference_equation_numerator :: "nat \<Rightarrow> DiscreteFilter \<Rightarrow> float \<Rightarrow> float" where
  "difference_equation_numerator SIZE f dat =
     foldl fsub
       (foldl fadd (Finite 0)
          (map (\<lambda>k. fmul (forcedResponseCoefficients f ! k) ((dat # forcedResponse f) ! k))
             [0..<SIZE]))
       (map (\<lambda>k. fmul (naturalResponseCoefficients f ! k) (naturalResponse f ! (k - 1)))
          [1..<SIZE])"

subsection \<open>Butterworth design\<close>

text \<open>
  The design computes in \<open>double\<close> and \<open>std::complex<double>\<close>. These are modelled by
  the real and the complex numbers: exact arithmetic on finite values, \<open>M_PI\<close> is \<open>pi\<close>.
  The coefficients it stores into the arrays of \<open>T\<close> are therefore finite. A division by
  zero and the square root of a negative number, which the program answers with an
  infinity or a NaN, have other values in HOL; \<open>butterworth_divisors_nonzero\<close> below
  collects the divisors.
\<close>

datatype FilterType = LOWPASS | HIGHPASS | BANDPASS | BANDSTOP

fun FilterType_value :: "FilterType \<Rightarrow> uint8_t" where
  "FilterType_value LOWPASS = 0b00"
| "FilterType_value HIGHPASS = 0b01"
| "FilterType_value BANDPASS = 0b10"
| "FilterType_value BANDSTOP = 0b11"

definition s2z :: "complex \<Rightarrow> real \<Rightarrow> complex" where
  "s2z s Ts = (1 + of_real (Ts / 2) * s) / (1 - of_real (Ts / 2) * s)"

definition getNumCoefficients :: "nat \<Rightarrow> FilterType \<Rightarrow> nat" where
  "getNumCoefficients ORDER type =
     (1 + (if FilterType_value type AND 0b10 \<noteq> 0 then 1 else 0)) * ORDER + 1"

text \<open>
  \<open>expandPolynomial\<close>: the body of the inner loop at index \<open>j\<close>, one pass of the outer loop
  at index \<open>i\<close> (a fresh all-zero \<open>newCoefficients\<close>, then the swap), and the whole function,
  which starts from \<open>[1, 0, \<dots>, 0]\<close> and keeps the real parts.
\<close>

definition expandPolynomial_inner ::
    "complex list \<Rightarrow> complex \<Rightarrow> nat \<Rightarrow> complex list \<Rightarrow> complex list" where
  "expandPolynomial_inner coefficients zero j newCoefficients =
     (let n1 = newCoefficients[j := newCoefficients ! j - coefficients ! j * zero]
      in n1[j + 1 := n1 ! (j + 1) + coefficients ! j])"

definition expandPolynomial_outer ::
    "nat \<Rightarrow> complex list \<Rightarrow> nat \<Rightarrow> complex list \<Rightarrow> complex list" where
  "expandPolynomial_outer ORDER zeros i coefficients =
     fold (expandPolynomial_inner coefficients (zeros ! i)) [0..<i + 1] (replicate (ORDER + 1) 0)"

definition expandPolynomial :: "nat \<Rightarrow> complex list \<Rightarrow> real list" where
  "expandPolynomial ORDER zeros =
     map Re (fold (expandPolynomial_outer ORDER zeros) [0..<ORDER] (1 # replicate ORDER 0))"

text \<open>
  \<open>evaluateFrequencyResponse\<close>: the sum \<open>c\<^sub>0 + c\<^sub>1 e\<^sup>-\<^sup>j\<^sup>\<omega> + c\<^sub>2 e\<^sup>-\<^sup>j\<^sup>2\<^sup>\<omega> + \<dots>\<close> that both of its
  loops compute, and the quotient of the two sums.
\<close>

definition evaluateFrequencyResponse_sum :: "real list \<Rightarrow> real \<Rightarrow> complex" where
  "evaluateFrequencyResponse_sum c omega =
     (let j = Complex 0 1
      in fold (\<lambda>k acc. acc + of_real (c ! k) *
                  (of_real (cos (omega * real k)) - j * of_real (sin (omega * real k))))
           [0..<length c] 0)"

definition evaluateFrequencyResponse :: "real list \<Rightarrow> real list \<Rightarrow> real \<Rightarrow> real \<Rightarrow> complex" where
  "evaluateFrequencyResponse b a w Ts =
     (let omega = w * Ts;
          numerator = evaluateFrequencyResponse_sum b omega;
          denominator = evaluateFrequencyResponse_sum a omega
      in numerator / denominator)"

definition complexAbs :: "complex \<Rightarrow> real" where
  "complexAbs z = sqrt (Re z * Re z + Im z * Im z)"

text \<open>
  \<open>std::atan2\<close> of the C library on finite arguments (the sign of a zero is not told apart).
\<close>

definition atan2 :: "real \<Rightarrow> real \<Rightarrow> real" where
  "atan2 y x =
     (if 0 < x then arctan (y / x)
      else if x < 0 then (if 0 \<le> y then arctan (y / x) + pi else arctan (y / x) - pi)
      else if 0 < y then pi / 2
      else if y < 0 then - pi / 2
      else 0)"

definition complexSqrt :: "complex \<Rightarrow> complex" where
  "complexSqrt z =
     (let r = sqrt (complexAbs z);
          theta = atan2 (Im z) (Re z) * 0.5
      in Complex (r * cos theta) (r * sin theta))"

text \<open>
  \<open>butterworth\<close> in the order of the source: the pre-warped edge frequencies, the
  prototype poles on the unit circle, the analog poles after the transform of the filter
  type (for the band types the array \<open>bandpass_stop_poles\<close>), their images in the z-plane,
  the zeros in the z-plane, and the frequency at which the gain is normalised.
\<close>

definition butterworth_prewarp :: "real \<Rightarrow> real \<Rightarrow> real" where
  "butterworth_prewarp w Ts = 2 / Ts * tan (w * (Ts / 2))"

definition butterworth_prototype_poles :: "nat \<Rightarrow> complex list" where
  "butterworth_prototype_poles n =
     map (\<lambda>k. let theta = pi * (2 * real k + 1) / (2 * real n) + pi / 2
               in Complex (cos theta) (sin theta)) [0..<n]"

fun butterworth_analog_poles :: "nat \<Rightarrow> FilterType \<Rightarrow> real \<Rightarrow> real \<Rightarrow> complex list" where
  "butterworth_analog_poles ORDER LOWPASS wl whp =
     map (\<lambda>p. p * of_real wl) (butterworth_prototype_poles ORDER)"
| "butterworth_analog_poles ORDER HIGHPASS wl whp =
     map (\<lambda>p. of_real wl / p) (butterworth_prototype_poles ORDER)"
| "butterworth_analog_poles ORDER BANDPASS wl whp =
     (let B = whp - wl; W0sq = whp * wl
      in concat (map (\<lambda>p.
           let discriminant = (p * of_real B) * (p * of_real B) - 4 * of_real W0sq;
               root = complexSqrt discriminant
           in [(p * of_real B + root) * 0.5, (p * of_real B - root) * 0.5])
         (butterworth_prototype_poles ORDER)))"
| "butterworth_analog_poles ORDER BANDSTOP wl whp =
     (let B = whp - wl; W0sq = whp * wl
      in concat (map (\<lambda>p.
           let discriminant = of_real (B * B) - (4 * - p * of_real W0sq);
               root = complexSqrt discriminant
           in [(of_real B + root) / (2 * p), (of_real B - root) / (2 * p)])
         (butterworth_prototype_poles ORDER)))"

definition butterworth_zPoles :: "nat \<Rightarrow> FilterType \<Rightarrow> real \<Rightarrow> real \<Rightarrow> real \<Rightarrow> complex list" where
  "butterworth_zPoles ORDER type wl whp Ts =
     map (\<lambda>i. s2z (butterworth_analog_poles ORDER type wl whp ! i) Ts)
       [0..<getNumCoefficients ORDER type - 1]"

fun butterworth_zZeros :: "nat \<Rightarrow> FilterType \<Rightarrow> real \<Rightarrow> real \<Rightarrow> real \<Rightarrow> complex list" where
  "butterworth_zZeros ORDER LOWPASS wl whp Ts =
     replicate (getNumCoefficients ORDER LOWPASS - 1) (Complex (- 1) 0)"
| "butterworth_zZeros ORDER HIGHPASS wl whp Ts =
     replicate (getNumCoefficients ORDER HIGHPASS - 1) (Complex 1 0)"
| "butterworth_zZeros ORDER BANDPASS wl whp Ts =
     map (\<lambda>i. if i mod 2 = 0 then Complex 1 0 else Complex (- 1) 0)
       [0..<getNumCoefficients ORDER BANDPASS - 1]"
| "butterworth_zZeros ORDER BANDSTOP wl whp Ts =
     (let omega0 = sqrt (wl * whp) * Ts;
          realPart = cos omega0;
          imagPart = sin omega0;
          zeroPlus = Complex realPart imagPart;
          zeroMinus = Complex realPart (- imagPart)
      in map (\<lambda>i. if i mod 2 = 0 then zeroPlus else zeroMinus)
           [0..<getNumCoefficients ORDER BANDSTOP - 1])"

fun butterworth_reference :: "FilterType \<Rightarrow> real \<Rightarrow> real \<Rightarrow> real \<Rightarrow> real" where
  "butterworth_reference LOWPASS wl whp Ts = 0"
| "butterworth_reference HIGHPASS wl whp Ts = pi / Ts"
| "butterworth_reference BANDPASS wl whp Ts = sqrt (wl * whp)"
| "butterworth_reference BANDSTOP wl whp Ts = 0"

text \<open>
  The last loop of \<open>butterworth\<close>: both coefficient arrays are stored in reverse order,
  each \<open>double\<close> converted to \<open>T\<close>. The arrays are written at every index, so what they
  hold before does not matter; they start as zeros here.
\<close>

definition butterworth_store :: "nat \<Rightarrow> real list \<Rightarrow> real list \<Rightarrow> Coefficients" where
  "butterworth_store COEFFICIENTS a b =
     (let (n, f) = fold (\<lambda>i (n, f). (n[COEFFICIENTS - i - 1 := Finite (a ! i)],
                                      f[COEFFICIENTS - i - 1 := Finite (b ! i)]))
                     [0..<COEFFICIENTS]
                     (replicate COEFFICIENTS (Finite 0), replicate COEFFICIENTS (Finite 0))
      in \<lparr>naturalResponseCoefficients = n, forcedResponseCoefficients = f\<rparr>)"

text \<open>
  \<open>butterworth\<close> from the expansion of the polynomials on, for given z-plane poles and
  zeros and a given gain factor \<open>scale\<close>.
\<close>

definition butterworth_assemble ::
    "nat \<Rightarrow> FilterType \<Rightarrow> complex list \<Rightarrow> complex list \<Rightarrow> real \<Rightarrow> Coefficients" where
  "butterworth_assemble ORDER type zPoles zZeros scale =
     (let COEFFICIENTS = getNumCoefficients ORDER type;
          b = expandPolynomial (COEFFICIENTS - 1) zZeros;
          a = expandPolynomial (COEFFICIENTS - 1) zPoles;
          b' = map (\<lambda>coef. coef * scale) b
      in butterworth_store COEFFICIENTS a b')"

text \<open>
  The magnitude \<open>mag\<close> of the frequency response of the unscaled polynomials at the
  reference frequency, and the whole of \<open>butterworth\<close>, whose gain factor is \<open>1 / mag\<close>.
\<close>

definition butterworth_mag :: "nat \<Rightarrow> FilterType \<Rightarrow> real \<Rightarrow> real \<Rightarrow> real \<Rightarrow> real" where
  "butterworth_mag ORDER type wc Ts wh =
     (let COEFFICIENTS = getNumCoefficients ORDER type;
          wl = butterworth_prewarp wc Ts;
          whp = butterworth_prewarp wh Ts;
          b = expandPolynomial (COEFFICIENTS - 1) (butterworth_zZeros ORDER type wl whp Ts);
          a = expandPolynomial (COEFFICIENTS - 1) (butterworth_zPoles ORDER type wl whp Ts);
          freqResp = evaluateFrequencyResponse b a (butterworth_reference type wl whp Ts) Ts
      in complexAbs freqResp)"

definition butterworth :: "nat \<Rightarrow> FilterType \<Rightarrow> real \<Rightarrow> real \<Rightarrow> real \<Rightarrow> Coefficients" where
  "butterworth ORDER type wc Ts wh =
     (let wl = butterworth_prewarp wc Ts;
          whp = butterworth_prewarp wh Ts;
          scale = 1 / butterworth_mag ORDER type wc Ts wh
      in butterworth_assemble ORDER type
           (butterworth_zPoles ORDER type wl whp Ts)
           (butterworth_zZeros ORDER type wl whp Ts) scale)"

text \<open>
  HOL's division by zero is 0, the program's is an infinity or a NaN. The divisors of
  \<open>butterworth\<close>, collected: the sample period, the prototype poles (divisors of the
  high-pass and band-stop transforms), the denominators of \<open>s2z\<close>, the denominator of
  the frequency response at the reference frequency, and \<open>mag\<close>. Where all of them are
  nonzero, no division of the model differs from the program's in this way.
\<close>

definition butterworth_divisors_nonzero ::
    "nat \<Rightarrow> FilterType \<Rightarrow> real \<Rightarrow> real \<Rightarrow> real \<Rightarrow> bool" where
  "butterworth_divisors_nonzero ORDER type wc Ts wh =
     (let wl = butterworth_prewarp wc Ts;
          whp = butterworth_prewarp wh Ts
      in Ts \<noteq> 0 \<and> ORDER \<noteq> 0 \<and>
         list_all (\<lambda>p. p \<noteq> 0) (butterworth_prototype_poles ORDER) \<and>
         list_all (\<lambda>p. 1 - of_real (Ts / 2) * p \<noteq> 0)
           (butterworth_analog_poles ORDER type wl whp) \<and>
         evaluateFrequencyResponse_sum
           (expandPolynomial (getNumCoefficients ORDER type - 1)
              (butterworth_zPoles ORDER type wl whp Ts))
           (butterworth_reference type wl whp Ts * Ts) \<noteq> 0 \<and>
         butterworth_mag ORDER type wc Ts wh \<noteq> 0)"

text \<open>
  The frequency response of a stored coefficient set at the frequency \<open>w\<close>, as the
  difference equation of the runtime uses the coefficients (\<open>\<Sum>k. b\<^sub>k z\<^sup>-\<^sup>k / \<Sum>k. a\<^sub>k z\<^sup>-\<^sup>k\<close>
  at \<open>z = e\<^sup>j\<^sup>w\<^sup>T\<^sup>s\<close>), and its magnitude.
\<close>

definition frequency_response :: "Coefficients \<Rightarrow> real \<Rightarrow> real \<Rightarrow> complex" where
  "frequency_response c w Ts =
     evaluateFrequencyResponse (map float_value (forcedResponseCoefficients c))
       (map float_value (naturalResponseCoefficients c)) w Ts"

definition gain :: "Coefficients \<Rightarrow> real \<Rightarrow> real \<Rightarrow> real" where
  "gain c w Ts = complexAbs (frequency_response c w Ts)"

text \<open>
  The same magnitude with both arrays read in the order \<open>butterworth\<close> holds them before
  it stores them (index 0 the constant term), the order in which its own normalisation
  passes them to \<open>evaluateFrequencyResponse\<close>.
\<close>

definition design_order_gain :: "Coefficients \<Rightarrow> real \<Rightarrow> real \<Rightarrow> real" where
  "design_order_gain c w Ts =
     complexAbs (evaluateFrequencyResponse
       (rev (map float_value (forcedResponseCoefficients c)))
       (rev (map float_value (naturalResponseCoefficients c))) w Ts)"

text \<open>
  Concrete values for evaluating the functions. \<open>example_coefficients\<close> is the order-1
  low-pass design with z-plane pole 1/2, zero -1 and gain factor 1/4 (the frequency
  response at 0 of the unscaled polynomials is 2 / (1 - 1/2) = 4); \<open>example_filter\<close> is
  the filter built from it, its histories filled with 3. \<open>example_halving\<close> has the
  natural-response coefficients 2 and 1, \<open>example_infinite\<close> a forced-response coefficient
  that is an infinity.
\<close>

definition example_coefficients :: Coefficients where
  "example_coefficients = butterworth_assemble 1 LOWPASS [1 / 2] [- 1] (1 / 4)"

definition example_filter :: DiscreteFilter where
  "example_filter = snd (fill 2 (Finite 3) (DiscreteFilter 2 example_coefficients))"

definition example_halving :: DiscreteFilter where
  "example_halving = DiscreteFilter 2
     \<lparr>naturalResponseCoefficients = [Finite 2, Finite 1],
      forcedResponseCoefficients = [Finite 1, Finite 0]\<rparr>"

definition example_infinite :: DiscreteFilter where
  "example_infinite = DiscreteFilter 2
     \<lparr>naturalResponseCoefficients = [Finite 1, Finite 0],
      forcedResponseCoefficients = [Infinity False, Finite 0]\<rparr>"


section \<open>Properties of the protocol driver\<close>

subsection \<open>Counting bits\<close>

lemma set_bits_0: "set_bits 0 x = 0"
  by (simp add: set_bits_def)

lemma set_bits_Suc: "set_bits (Suc n) x = set_bits n x + of_bool (bit x n)"
  by (simp add: set_bits_def)

lemma set_bits_cong:
  "(\<And>k. k < n \<Longrightarrow> bit x k = bit y k) \<Longrightarrow> set_bits n x = set_bits n y"
  unfolding set_bits_def by (rule arg_cong [where f = length], rule filter_cong) auto

lemma set_bits_shift: "set_bits (Suc n) x = of_bool (bit x 0) + set_bits n (drop_bit 1 x)"
proof (induction n)
  case 0
  show ?case by (simp add: set_bits_Suc set_bits_0)
next
  case (Suc n)
  have b: "bit x (Suc n) = bit (drop_bit 1 x) n"
    by (simp add: bit_drop_bit_eq)
  have "set_bits (Suc (Suc n)) x = set_bits (Suc n) x + of_bool (bit x (Suc n))"
    by (rule set_bits_Suc)
  also have "\<dots> = of_bool (bit x 0) + (set_bits n (drop_bit 1 x) + of_bool (bit (drop_bit 1 x) n))"
    by (simp only: Suc b add.assoc)
  also have "\<dots> = of_bool (bit x 0) + set_bits (Suc n) (drop_bit 1 x)"
    by (simp only: set_bits_Suc)
  finally show ?case .
qed

lemma set_bits_high_clear:
  "m \<le> n \<Longrightarrow> (\<And>k. m \<le> k \<Longrightarrow> \<not> bit x k) \<Longrightarrow> set_bits n x = set_bits m x"
proof (induction n)
  case 0
  then show ?case by simp
next
  case (Suc n)
  show ?case
  proof (cases "m = Suc n")
    case True
    then show ?thesis by simp
  next
    case False
    with Suc.prems(1) have le: "m \<le> n" by simp
    then have "\<not> bit x n" by (rule Suc.prems(2))
    moreover have "set_bits n x = set_bits m x"
      using le Suc.prems(2) by (rule Suc.IH)
    ultimately show ?thesis by (simp add: set_bits_Suc)
  qed
qed

lemma set_bits_flip:
  fixes w :: "'a::len word"
  shows "i < n \<Longrightarrow> n \<le> LENGTH('a) \<Longrightarrow>
    even (set_bits n (flip_bit i w)) = odd (set_bits n w)"
proof (induction n)
  case 0
  then show ?case by simp
next
  case (Suc n)
  from Suc.prems have len: "n < LENGTH('a)" by simp
  show ?case
  proof (cases "i = n")
    case True
    have "set_bits n (flip_bit i w) = set_bits n w"
      by (rule set_bits_cong) (auto simp add: True bit_flip_bit_iff dest: bit_imp_le_length)
    moreover have "bit (flip_bit i w) n = (\<not> bit w n)"
      using True len by (auto simp add: bit_flip_bit_iff)
    ultimately show ?thesis
      by (simp add: set_bits_Suc)
  next
    case False
    with Suc.prems have "i < n" by simp
    moreover from len have "n \<le> LENGTH('a)" by simp
    ultimately have "even (set_bits n (flip_bit i w)) = odd (set_bits n w)"
      by (rule Suc.IH)
    moreover have "bit (flip_bit i w) n = bit w n"
      using False len by (auto simp add: bit_flip_bit_iff)
    ultimately show ?thesis
      by (simp add: set_bits_Suc)
  qed
qed

subsection \<open>What the two parity functions compute\<close>

lemma spiCalcEvenParity_loop_counts:
  "spiCalcEvenParity_loop n v cnt = cnt + of_nat (set_bits n v)"
proof (induction n arbitrary: v cnt)
  case 0
  show ?case by (simp add: set_bits_0)
next
  case (Suc n)
  have b: "(v AND 0x1 \<noteq> 0) = bit v 0"
    by (simp add: and_one_eq bit_0 mod_2_eq_odd)
  show ?case
    by (simp add: Suc b set_bits_shift del: of_nat_Suc)
qed

lemma spiCalcEvenParity_eq: "spiCalcEvenParity v = of_bool (odd (set_bits 16 v))"
  by (simp add: spiCalcEvenParity_def spiCalcEvenParity_loop_counts and_one_eq mod_2_eq_odd)

lemma mask_7FFF: "(0x7FFF :: uint16_t) = mask 15"
  by (simp add: mask_eq_exp_minus_1)

lemma set_bits_low15: "set_bits 32 (ucast (v AND 0x7FFF :: uint16_t) :: 32 word) = set_bits 15 v"
proof -
  have b: "bit (ucast (v AND 0x7FFF :: uint16_t) :: 32 word) k = (k < 15 \<and> bit v k)" for k
    by (auto simp add: mask_7FFF bit_ucast_iff bit_and_iff bit_mask_iff dest: bit_imp_le_length)
  have "set_bits 32 (ucast (v AND 0x7FFF :: uint16_t) :: 32 word)
      = set_bits 15 (ucast (v AND 0x7FFF :: uint16_t) :: 32 word)"
    by (rule set_bits_high_clear) (simp_all add: b)
  also have "\<dots> = set_bits 15 v"
    by (rule set_bits_cong) (simp add: b)
  finally show ?thesis .
qed

lemma set_bits_16_low15: "set_bits 16 (v AND 0x7FFF :: uint16_t) = set_bits 15 v"
proof -
  have b: "bit (v AND 0x7FFF :: uint16_t) k = (k < 15 \<and> bit v k)" for k
    by (auto simp add: mask_7FFF bit_and_iff bit_mask_iff)
  have "set_bits 16 (v AND 0x7FFF :: uint16_t) = set_bits 15 (v AND 0x7FFF :: uint16_t)"
    by (rule set_bits_high_clear) (simp_all add: b)
  also have "\<dots> = set_bits 15 v"
    by (rule set_bits_cong) (simp add: b)
  finally show ?thesis .
qed

lemma parityBit_eq:
  "(ucast (drop_bit 15 v AND 0x01 :: uint16_t) :: uint8_t) = of_bool (bit v 15)"
  by (simp add: and_one_eq mod_2_eq_odd bit_iff_odd_drop_bit)

lemma spiCheckParity_eq: "spiCheckParity v = of_bool (bit v 15 = odd (set_bits 15 v))"
proof -
  have "(of_nat (set_bits 15 v mod 2) :: uint8_t) = of_bool (odd (set_bits 15 v))"
    by (simp add: mod_2_eq_odd)
  then show ?thesis
    by (simp add: spiCheckParity_def Let_def parityBit_eq builtin_parity_def set_bits_low15)
qed

lemma spiCheckParity_even: "(spiCheckParity v = 1) = even (set_bits 16 v)"
proof -
  have "set_bits 16 v = set_bits 15 v + of_bool (bit v 15)"
    using set_bits_Suc [of 15 v] by simp
  then show ?thesis
    by (cases "bit v 15") (simp_all add: spiCheckParity_eq)
qed

lemma spiCheckParity_cases: "spiCheckParity v = 1 \<or> spiCheckParity v = 0"
  by (cases "bit v 15 = odd (set_bits 15 v)") (simp_all add: spiCheckParity_eq)

lemma bit_with_parity:
  "bit (with_parity v) k = (if k < 15 then bit v k else k = 15 \<and> odd (set_bits 15 v))"
proof -
  have p: "spiCalcEvenParity (v AND 0x7FFF) = of_bool (odd (set_bits 15 v))"
    by (simp only: spiCalcEvenParity_eq set_bits_16_low15)
  have w: "with_parity v = (v AND mask 15) OR push_bit 15 (of_bool (odd (set_bits 15 v)))"
    unfolding with_parity_def p by (simp add: mask_7FFF)
  show ?thesis
    unfolding w
    by (auto simp add: bit_or_iff bit_and_iff bit_mask_iff bit_push_bit_iff bit_of_bool_iff
        dest: bit_imp_le_length)
qed

lemma with_parity_valid: "spiCheckParity (with_parity v) = 1"
proof -
  have "set_bits 15 (with_parity v) = set_bits 15 v"
    by (rule set_bits_cong) (simp add: bit_with_parity)
  then show ?thesis
    by (simp add: spiCheckParity_eq bit_with_parity)
qed

lemma flip_bit_invalid:
  assumes v: "spiCheckParity w = 1" and i: "i < 16"
  shows "spiCheckParity (flip_bit i w) = 0"
proof -
  from v have "even (set_bits 16 w)" by (simp add: spiCheckParity_even)
  moreover have "even (set_bits 16 (flip_bit i w)) = odd (set_bits 16 w)"
    using i by (intro set_bits_flip) simp_all
  ultimately have "spiCheckParity (flip_bit i w) \<noteq> 1"
    by (simp add: spiCheckParity_even)
  with spiCheckParity_cases [of "flip_bit i w"] show ?thesis by simp
qed

lemma parity_C000: "spiCheckParity 0xC000 = 1"
  by code_simp

lemma parity_3E80: "spiCheckParity 0x3E80 = 1"
  by code_simp

lemma parity_80C8: "spiCheckParity 0x80C8 = 1"
  by code_simp

lemma parity_A000: "spiCheckParity 0xA000 = 1"
  by code_simp

lemma parity_flipped_80C8: "spiCheckParity (flip_bit 3 0x80C8) = 0"
  by code_simp

lemma with_parity_00C8: "with_parity 0x00C8 = 0x80C8"
  by code_simp

text \<open>
  C6: putting the computed parity of the low 15 bits into bit 15 of any 16-bit value gives
  a word that \<open>spiCheckParity\<close> accepts (result 1), and flipping any one of the 16 bits of
  an accepted word gives a word that it rejects (result 0).
\<close>

theorem parity_roundtrip_and_single_flip:
  "spiCheckParity (with_parity v) = 1 \<and>
   (\<forall>w i. spiCheckParity w = 1 \<and> i < 16 \<longrightarrow> spiCheckParity (flip_bit i w) = 0)"
  using with_parity_valid flip_bit_invalid by blast

theorem parity_roundtrip_and_single_flip_witness:
  "spiCheckParity (with_parity 0x00C8) = 1 \<and> with_parity 0x00C8 = 0x80C8 \<and>
   spiCheckParity 0x80C8 = 1 \<and> (3::nat) < 16 \<and> spiCheckParity (flip_bit 3 0x80C8) = 0"
proof -
  have h: "spiCheckParity 0x80C8 = 1 \<and> (3::nat) < 16"
    by (simp add: parity_80C8)
  from parity_roundtrip_and_single_flip [of "0x00C8"]
  have "spiCheckParity (with_parity 0x00C8) = 1"
    and "spiCheckParity 0x80C8 = 1 \<and> (3::nat) < 16 \<longrightarrow> spiCheckParity (flip_bit 3 0x80C8) = 0"
    by blast+
  with h show ?thesis by (simp add: with_parity_00C8)
qed

subsection \<open>Reading\<close>

lemma not_C000: "(NOT 0xC000 :: uint16_t) = 0x3FFF"
  by simp

lemma read_fst: "fst (read a r s) = r AND 0x3FFF"
  unfolding read_def not_C000 by simp

lemma read_snd: "snd (read a r s) = s\<lparr>errorFlag := (spiCheckParity r = 0)\<rparr>"
  by (simp add: read_def)

lemma getRawRotation_eq:
  "getRawRotation r s = (r AND 0x3FFF, s\<lparr>errorFlag := (spiCheckParity r = 0)\<rparr>)"
  unfolding getRawRotation_def
  by (rule prod_eqI) (simp_all only: read_fst read_snd fst_conv snd_conv)

text \<open>
  C1 (defect of the code): a response whose error-indicator bit 14 is set must raise
  \<open>errorFlag\<close> even when its parity is good. The word 0xC000 is such a response (bits 15
  and 14 set, parity good), and \<open>read\<close> leaves \<open>errorFlag\<close> false on it: the mask
  \<open>0x01 >> 14\<close> is 0, so the error bit is never tested and \<open>errorFlag\<close> follows the
  parity check alone.
\<close>

theorem read_ignores_error_bit:
  "bit (0xC000 :: uint16_t) 14 \<and> spiCheckParity 0xC000 = 1 \<and>
   errorFlag (snd (read AS5048A_ANGLE 0xC000 s)) = False \<and>
   errorFlag (snd (read registerAddress response s)) = (spiCheckParity response = 0)"
  by (simp add: read_snd parity_C000)

theorem read_ignores_error_bit_witness:
  "bit (0xC000 :: uint16_t) 14 \<and> spiCheckParity 0xC000 = 1 \<and>
   errorFlag (snd (read AS5048A_ANGLE 0xC000
     \<lparr>errorFlag = True, ocfFlag = False, position = 0, prevRaw = 0,
      prevRawinitialized = False, revCount = 0\<rparr>)) = False"
  using read_ignores_error_bit
    [of "\<lparr>errorFlag = True, ocfFlag = False, position = 0, prevRaw = 0,
          prevRawinitialized = False, revCount = 0\<rparr>" AS5048A_ANGLE "0xC000"]
  by blast

text \<open>
  C10: after \<open>setZeroPosition p\<close> the stored offset is \<open>p\<close> modulo 0x3FFF = 16383 (not
  modulo 16384): it lies in [0, 16382], so it is below 16384 and never 16383, and 16383
  itself is stored as 0.
\<close>

theorem setZeroPosition_mod_16383:
  "getZeroPosition (setZeroPosition p s) = p mod 0x3FFF \<and>
   unat (getZeroPosition (setZeroPosition p s)) = unat p mod 16383 \<and>
   unat (getZeroPosition (setZeroPosition p s)) \<le> 16382 \<and>
   unat (getZeroPosition (setZeroPosition p s)) < 16384 \<and>
   getZeroPosition (setZeroPosition p s) \<noteq> 16383 \<and>
   getZeroPosition (setZeroPosition 16383 s) = 0"
proof -
  have m: "unat (p mod 0x3FFF) = unat p mod 16383"
    by (simp add: unat_mod)
  have "unat p mod 16383 < 16383"
    by simp
  then have le: "unat p mod 16383 \<le> 16382" and lt: "unat p mod 16383 < 16384"
    by linarith+
  have ne: "p mod 0x3FFF \<noteq> 16383"
  proof
    assume "p mod 0x3FFF = 16383"
    then have "unat (p mod 0x3FFF) = unat (16383 :: uint16_t)" by simp
    with m le show False by simp
  qed
  from m le lt ne show ?thesis
    by (simp add: setZeroPosition_def getZeroPosition_def)
qed

subsection \<open>Unwrapping\<close>

lemmas getRotationUnwrapped_unfold =
  getRotationUnwrapped_def getRawRotation_eq Let_def split_beta

lemma getRotationUnwrapped_output:
  "fst (getRotationUnwrapped r s) = unwrapped_of (snd (getRotationUnwrapped r s))"
  by (simp add: getRotationUnwrapped_unfold unwrapped_of_def)

lemma getRotationUnwrapped_initialized:
  "prevRawinitialized (snd (getRotationUnwrapped r s))"
  by (simp add: getRotationUnwrapped_unfold)

lemma getRotationUnwrapped_position:
  "position (snd (getRotationUnwrapped r s)) = position s"
  by (simp add: getRotationUnwrapped_unfold)

lemma getRotationUnwrapped_step:
  "revCount (snd (getRotationUnwrapped r s)) \<in>
     (if prevRawinitialized s then {revCount s - 1, revCount s, revCount s + 1} else {-1})"
  by (simp add: getRotationUnwrapped_unfold HALF_SCALE_def)

lemma getRotationUnwrapped_zero:
  "prevRawinitialized s \<Longrightarrow> r AND 0x3FFF = 0 \<Longrightarrow>
   prevRaw (snd (getRotationUnwrapped r s)) = prevRaw s \<and>
   revCount (snd (getRotationUnwrapped r s)) = revCount s"
  by (simp add: getRotationUnwrapped_unfold HALF_SCALE_def)

lemma getRotationUnwrapped_first_8192:
  "\<not> prevRawinitialized s \<Longrightarrow> position s = 0 \<Longrightarrow> spiCheckParity r = 1 \<Longrightarrow>
   r AND 0x3FFF = 8192 \<Longrightarrow>
   revCount (snd (getRotationUnwrapped r s)) = -1 \<and>
   fst (getRotationUnwrapped r s) = -16384 \<and> sint (fst (getRotationUnwrapped r s)) = -16384"
  by (simp add: getRotationUnwrapped_unfold HALF_SCALE_def FULL_SCALE_def)

lemma getRotationUnwrapped_prevRaw_16000:
  "spiCheckParity r = 1 \<Longrightarrow> r AND 0x3FFF = 16000 \<Longrightarrow>
   prevRaw (snd (getRotationUnwrapped r s)) = 16000"
  by (simp add: getRotationUnwrapped_unfold HALF_SCALE_def FULL_SCALE_def)

lemma getRotationUnwrapped_prevRaw_200:
  "spiCheckParity r = 1 \<Longrightarrow> r AND 0x3FFF = 200 \<Longrightarrow>
   prevRaw (snd (getRotationUnwrapped r s)) = 200"
  by (simp add: getRotationUnwrapped_unfold HALF_SCALE_def FULL_SCALE_def)

lemma getRotationUnwrapped_forward:
  "prevRaw s = 16000 \<Longrightarrow> prevRawinitialized s \<Longrightarrow> spiCheckParity r = 1 \<Longrightarrow>
   r AND 0x3FFF = 200 \<Longrightarrow>
   revCount (snd (getRotationUnwrapped r s)) = revCount s + 1"
  by (simp add: getRotationUnwrapped_unfold HALF_SCALE_def FULL_SCALE_def)

lemma getRotationUnwrapped_backward:
  "prevRaw s = 200 \<Longrightarrow> prevRawinitialized s \<Longrightarrow> spiCheckParity r = 1 \<Longrightarrow>
   r AND 0x3FFF = 16000 \<Longrightarrow>
   revCount (snd (getRotationUnwrapped r s)) = revCount s - 1"
  by (simp add: getRotationUnwrapped_unfold HALF_SCALE_def FULL_SCALE_def)

lemma sint_succ:
  fixes r :: int32_t
  assumes "sint r < 2147483647"
  shows "sint (r + 1) = sint r + 1"
proof -
  have lo: "- 2147483648 \<le> sint r"
    using sint_ge [of r] by simp
  have "sint (r + 1) = signed_take_bit 31 (sint r + 1)"
    by (simp add: sint_word_ariths)
  also have "\<dots> = sint r + 1"
    using assms lo by (intro signed_take_bit_int_eq_self) simp_all
  finally show ?thesis .
qed

lemma sint_pred:
  fixes r :: int32_t
  assumes "- 2147483648 < sint r"
  shows "sint (r - 1) = sint r - 1"
proof -
  have hi: "sint r < 2147483648"
    using sint_lt [of r] by simp
  have "sint (r - 1) = signed_take_bit 31 (sint r - 1)"
    by (simp add: sint_word_ariths)
  also have "\<dots> = sint r - 1"
    using assms hi by (intro signed_take_bit_int_eq_self) simp_all
  finally show ?thesis .
qed

text \<open>
  C3: on an initialized state, with responses of good parity (so no error substitution)
  that carry the raw readings 16000 and then 200, the second call leaves \<open>revCount\<close>
  exactly one above what the first call left; with 200 and then 16000, exactly one below.
  The differences are -15800 and 15800, beyond the half scale 8192.
\<close>

theorem wraparound_16000_200:
  assumes "prevRawinitialized s"
    and "spiCheckParity a = 1" and "a AND 0x3FFF = 16000"
    and "spiCheckParity b = 1" and "b AND 0x3FFF = 200"
  shows "revCount (snd (getRotationUnwrapped b (snd (getRotationUnwrapped a s))))
           = revCount (snd (getRotationUnwrapped a s)) + 1 \<and>
         revCount (snd (getRotationUnwrapped a (snd (getRotationUnwrapped b s))))
           = revCount (snd (getRotationUnwrapped b s)) - 1"
proof
  let ?s1 = "snd (getRotationUnwrapped a s)"
  have "prevRaw ?s1 = 16000"
    using assms(2,3) by (rule getRotationUnwrapped_prevRaw_16000)
  then show "revCount (snd (getRotationUnwrapped b ?s1)) = revCount ?s1 + 1"
    using getRotationUnwrapped_initialized assms(4,5) by (rule getRotationUnwrapped_forward)
next
  let ?s1 = "snd (getRotationUnwrapped b s)"
  have "prevRaw ?s1 = 200"
    using assms(4,5) by (rule getRotationUnwrapped_prevRaw_200)
  then show "revCount (snd (getRotationUnwrapped a ?s1)) = revCount ?s1 - 1"
    using getRotationUnwrapped_initialized assms(2,3) by (rule getRotationUnwrapped_backward)
qed


theorem wraparound_16000_200_witness:
  "prevRawinitialized example_running \<and>
   spiCheckParity 0x3E80 = 1 \<and> (0x3E80 :: uint16_t) AND 0x3FFF = 16000 \<and>
   spiCheckParity 0x80C8 = 1 \<and> (0x80C8 :: uint16_t) AND 0x3FFF = 200 \<and>
   revCount (snd (getRotationUnwrapped 0x80C8 (snd (getRotationUnwrapped 0x3E80 example_running))))
     = revCount (snd (getRotationUnwrapped 0x3E80 example_running)) + 1 \<and>
   revCount (snd (getRotationUnwrapped 0x3E80 (snd (getRotationUnwrapped 0x80C8 example_running))))
     = revCount (snd (getRotationUnwrapped 0x80C8 example_running)) - 1"
proof -
  have h1: "prevRawinitialized example_running"
    by (simp add: example_running_def)
  have h2: "(0x3E80 :: uint16_t) AND 0x3FFF = 16000"
    by simp
  have h3: "(0x80C8 :: uint16_t) AND 0x3FFF = 200"
    by simp
  from wraparound_16000_200 [OF h1 parity_3E80 h2 parity_80C8 h3] h1 h2 h3
    parity_3E80 parity_80C8
  show ?thesis by blast
qed

text \<open>
  C4: with zero offset 0, a first-ever call whose response has good parity and carries the
  raw reading 8192 sets \<open>revCount\<close> to -1 and returns -1 * 16384 + 8192 - 0 - 8192 = -16384.
\<close>

theorem first_sample_8192:
  assumes "\<not> prevRawinitialized s" and "position s = 0"
    and "spiCheckParity r = 1" and "r AND 0x3FFF = 8192"
  shows "revCount (snd (getRotationUnwrapped r s)) = -1 \<and>
         sint (revCount (snd (getRotationUnwrapped r s))) = -1 \<and>
         fst (getRotationUnwrapped r s) = -16384 \<and>
         sint (fst (getRotationUnwrapped r s)) = -16384"
  using getRotationUnwrapped_first_8192 [OF assms] by simp


theorem first_sample_8192_witness:
  "\<not> prevRawinitialized example_uninitialized \<and> position example_uninitialized = 0 \<and>
   spiCheckParity 0xA000 = 1 \<and> (0xA000 :: uint16_t) AND 0x3FFF = 8192 \<and>
   revCount (snd (getRotationUnwrapped 0xA000 example_uninitialized)) = -1 \<and>
   sint (fst (getRotationUnwrapped 0xA000 example_uninitialized)) = -16384"
proof -
  have h1: "\<not> prevRawinitialized example_uninitialized"
    by (simp add: example_uninitialized_def)
  have h2: "position example_uninitialized = 0"
    by (simp add: example_uninitialized_def)
  have h3: "(0xA000 :: uint16_t) AND 0x3FFF = 8192"
    by simp
  from first_sample_8192 [OF h1 h2 parity_A000 h3] h1 h2 h3 parity_A000
  show ?thesis by blast
qed

text \<open>
  C5: on an initialized state a response whose raw reading is 0 is replaced by \<open>prevRaw\<close>:
  the call leaves \<open>prevRaw\<close> and \<open>revCount\<close> as they were (the state that omitting the
  sample gives), it returns the value that state stands for, and after any earlier call
  it returns what that earlier call returned.
\<close>

theorem zero_sample_is_skipped:
  assumes "prevRawinitialized s" and "r AND 0x3FFF = 0"
  shows "prevRaw (snd (getRotationUnwrapped r s)) = prevRaw s \<and>
         revCount (snd (getRotationUnwrapped r s)) = revCount s \<and>
         fst (getRotationUnwrapped r s) = unwrapped_of s \<and>
         fst (getRotationUnwrapped r (snd (getRotationUnwrapped r0 s0)))
           = fst (getRotationUnwrapped r0 s0) \<and>
         prevRaw (snd (getRotationUnwrapped r (snd (getRotationUnwrapped r0 s0))))
           = prevRaw (snd (getRotationUnwrapped r0 s0)) \<and>
         revCount (snd (getRotationUnwrapped r (snd (getRotationUnwrapped r0 s0))))
           = revCount (snd (getRotationUnwrapped r0 s0))"
proof -
  have same: "prevRaw (snd (getRotationUnwrapped r t)) = prevRaw t \<and>
      revCount (snd (getRotationUnwrapped r t)) = revCount t" if "prevRawinitialized t" for t
    using that assms(2) by (rule getRotationUnwrapped_zero)
  have out: "fst (getRotationUnwrapped r t) = unwrapped_of t" if "prevRawinitialized t" for t
    using same [OF that]
    by (simp add: getRotationUnwrapped_output unwrapped_of_def getRotationUnwrapped_position)
  let ?s1 = "snd (getRotationUnwrapped r0 s0)"
  have i1: "prevRawinitialized ?s1" by (rule getRotationUnwrapped_initialized)
  have "fst (getRotationUnwrapped r ?s1) = fst (getRotationUnwrapped r0 s0)"
    using out [OF i1] by (simp add: getRotationUnwrapped_output)
  with same [OF assms(1)] out [OF assms(1)] same [OF i1] show ?thesis by simp
qed


theorem zero_sample_is_skipped_witness:
  "prevRawinitialized example_running \<and> (0x0000 :: uint16_t) AND 0x3FFF = 0 \<and>
   prevRaw (snd (getRotationUnwrapped 0x0000 example_running)) = 5000 \<and>
   revCount (snd (getRotationUnwrapped 0x0000 example_running)) = 0 \<and>
   fst (getRotationUnwrapped 0x0000 (snd (getRotationUnwrapped 0x3E80 example_uninitialized)))
     = fst (getRotationUnwrapped 0x3E80 example_uninitialized)"
proof -
  have h1: "prevRawinitialized example_running"
    by (simp add: example_running_def)
  have h2: "(0x0000 :: uint16_t) AND 0x3FFF = 0"
    by simp
  have v: "prevRaw example_running = 5000" "revCount example_running = 0"
    by (simp_all add: example_running_def)
  from zero_sample_is_skipped [OF h1 h2, of "0x3E80" example_uninitialized] h1 h2 v
  show ?thesis by simp
qed

text \<open>
  C7: a call on an initialized state leaves \<open>revCount\<close> decremented by 1, incremented by 1
  or unchanged, so away from the ends of the \<open>int32_t\<close> range it moves by at most 1 in
  absolute value; the first call (state not yet initialized) leaves it at -1.
\<close>

theorem revCount_moves_by_at_most_one:
  "(prevRawinitialized s \<longrightarrow>
      revCount (snd (getRotationUnwrapped r s)) \<in> {revCount s - 1, revCount s, revCount s + 1}) \<and>
   (prevRawinitialized s \<and> - 2147483648 < sint (revCount s) \<and> sint (revCount s) < 2147483647 \<longrightarrow>
      \<bar>sint (revCount (snd (getRotationUnwrapped r s))) - sint (revCount s)\<bar> \<le> 1) \<and>
   (\<not> prevRawinitialized s \<longrightarrow>
      revCount (snd (getRotationUnwrapped r s)) = -1 \<and>
      sint (revCount (snd (getRotationUnwrapped r s))) = -1)"
proof (cases "prevRawinitialized s")
  case True
  with getRotationUnwrapped_step [of r s]
  have m: "revCount (snd (getRotationUnwrapped r s)) \<in> {revCount s - 1, revCount s, revCount s + 1}"
    by simp
  have "\<bar>sint (revCount (snd (getRotationUnwrapped r s))) - sint (revCount s)\<bar> \<le> 1"
    if "- 2147483648 < sint (revCount s)" and "sint (revCount s) < 2147483647"
    using m sint_succ [OF that(2)] sint_pred [OF that(1)] by auto
  with True m show ?thesis by blast
next
  case False
  with getRotationUnwrapped_step [of r s]
  have "revCount (snd (getRotationUnwrapped r s)) = -1" by simp
  with False show ?thesis by simp
qed

theorem revCount_moves_by_at_most_one_witness:
  "prevRawinitialized example_running \<and>
   - 2147483648 < sint (revCount example_running) \<and>
   sint (revCount example_running) < 2147483647 \<and>
   revCount (snd (getRotationUnwrapped 0x3E80 example_running))
     \<in> {revCount example_running - 1, revCount example_running, revCount example_running + 1} \<and>
   \<bar>sint (revCount (snd (getRotationUnwrapped 0x3E80 example_running)))
      - sint (revCount example_running)\<bar> \<le> 1 \<and>
   \<not> prevRawinitialized example_uninitialized \<and>
   revCount (snd (getRotationUnwrapped 0x3E80 example_uninitialized)) = -1"
proof -
  have h1: "prevRawinitialized example_running"
    and h2: "- 2147483648 < sint (revCount example_running)"
    and h3: "sint (revCount example_running) < 2147483647"
    by (simp_all add: example_running_def)
  have h4: "\<not> prevRawinitialized example_uninitialized"
    by (simp add: example_uninitialized_def)
  from revCount_moves_by_at_most_one [of example_running "0x3E80"]
    revCount_moves_by_at_most_one [of example_uninitialized "0x3E80"] h1 h2 h3 h4
  show ?thesis by blast
qed

section \<open>Properties of the filter\<close>

subsection \<open>Arithmetic on zeros\<close>

lemma is_zero_float_zero: "is_zero (float_zero s)"
  by (simp add: float_zero_def)

lemma is_zero_fmul: "is_finite a \<Longrightarrow> is_zero b \<Longrightarrow> is_zero (fmul a b)"
  by (cases a; cases b) (simp_all add: fmul_def is_zero_float_zero)

lemma is_zero_fadd: "is_zero a \<Longrightarrow> is_zero b \<Longrightarrow> is_zero (fadd a b)"
  by (cases a; cases b) (simp_all add: fadd_def is_zero_float_zero)

lemma is_zero_fneg: "is_zero a \<Longrightarrow> is_zero (fneg a)"
  by (cases a) simp_all

lemma is_zero_fsub: "is_zero a \<Longrightarrow> is_zero b \<Longrightarrow> is_zero (fsub a b)"
  by (simp add: fsub_def is_zero_fadd is_zero_fneg)

lemma is_zero_fdiv: "is_zero a \<Longrightarrow> is_finite b \<Longrightarrow> \<not> is_zero b \<Longrightarrow> is_zero (fdiv a b)"
  by (cases a; cases b) (simp_all add: fdiv_def is_zero_float_zero)

lemma is_zero_fold_fadd:
  "(\<And>i. i \<in> set xs \<Longrightarrow> is_zero (g i)) \<Longrightarrow> is_zero s \<Longrightarrow>
   is_zero (fold (\<lambda>i s. fadd s (g i)) xs s)"
  by (induction xs arbitrary: s) (simp_all add: is_zero_fadd)

lemma is_zero_fold_fsub:
  "(\<And>i. i \<in> set xs \<Longrightarrow> is_zero (g i)) \<Longrightarrow> is_zero s \<Longrightarrow>
   is_zero (fold (\<lambda>i s. fsub s (g i)) xs s)"
  by (induction xs arbitrary: s) (simp_all add: is_zero_fsub)

subsection \<open>History buffers\<close>

lemma length_shift_history: "length (shift_history i h) = length h"
  by (induction i arbitrary: h) simp_all

lemma shift_history_nth:
  "i < length h \<Longrightarrow> k < length h \<Longrightarrow>
   shift_history i h ! k = (if 1 \<le> k \<and> k \<le> i then h ! (k - 1) else h ! k)"
proof (induction i arbitrary: h)
  case 0
  show ?case by simp
next
  case (Suc i)
  let ?h = "h[Suc i := h ! i]"
  have "shift_history (Suc i) h ! k = shift_history i ?h ! k" by simp
  also have "\<dots> = (if 1 \<le> k \<and> k \<le> i then ?h ! (k - 1) else ?h ! k)"
    using Suc.prems by (intro Suc.IH) simp_all
  also have "\<dots> = (if 1 \<le> k \<and> k \<le> Suc i then h ! (k - 1) else h ! k)"
    using Suc.prems by (auto simp add: nth_list_update)
  finally show ?case .
qed

lemma shifted_history_nth:
  assumes "0 < SIZE" "length h = SIZE" "k < SIZE"
  shows "(shift_history (SIZE - Suc 0) h)[0 := dat] ! k = (dat # h) ! k"
proof (cases k)
  case 0
  with assms show ?thesis by (simp add: length_shift_history)
next
  case (Suc j)
  with assms have "k \<le> SIZE - 1" "1 \<le> k" "SIZE - 1 < length h" by simp_all
  with assms Suc show ?thesis by (simp add: shift_history_nth)
qed

lemma shifted_history_all:
  assumes "0 < SIZE" "length h = SIZE" "list_all P h" "P dat"
  shows "list_all P ((shift_history (SIZE - Suc 0) h)[0 := dat])"
proof -
  have "P ((shift_history (SIZE - Suc 0) h)[0 := dat] ! k)" if "k < SIZE" for k
  proof (cases k)
    case 0
    with assms show ?thesis by (simp add: length_shift_history)
  next
    case (Suc j)
    with that assms(2) have "j < length h" by simp
    with assms(3) have "P (h ! j)" by (simp add: list_all_length)
    with shifted_history_nth [OF assms(1,2) that, of dat] Suc show ?thesis by simp
  qed
  with assms(2) show ?thesis
    by (simp add: list_all_length length_shift_history)
qed

subsection \<open>One call of \<open>filterData\<close>\<close>

lemma fold_fadd_foldl: "fold (\<lambda>i s. fadd s (g i)) xs s = foldl fadd s (map g xs)"
  by (induction xs arbitrary: s) simp_all

lemma fold_fsub_foldl: "fold (\<lambda>i s. fsub s (g i)) xs s = foldl fsub s (map g xs)"
  by (induction xs arbitrary: s) simp_all

lemma filterData_output:
  assumes "0 < SIZE" "length (naturalResponse f) = SIZE" "length (forcedResponse f) = SIZE"
  shows "fst (filterData SIZE dat f)
           = fdiv (difference_equation_numerator SIZE f dat) (naturalResponseCoefficients f ! 0)"
proof -
  let ?fr = "(shift_history (SIZE - Suc 0) (forcedResponse f))[0 := dat]"
  have s1: "map (\<lambda>i. fmul (forcedResponseCoefficients f ! i) (?fr ! i)) [0..<SIZE]
      = map (\<lambda>k. fmul (forcedResponseCoefficients f ! k) ((dat # forcedResponse f) ! k)) [0..<SIZE]"
    by (rule map_cong)
       (simp_all only: shifted_history_nth [OF assms(1,3)] set_upt atLeastLessThan_iff)
  have "[1..<SIZE] = map Suc [0..<SIZE - 1]"
    using assms(1) by (simp add: map_Suc_upt)
  then have s2:
    "map (\<lambda>k. fmul (naturalResponseCoefficients f ! k) (naturalResponse f ! (k - 1))) [1..<SIZE]
      = map (\<lambda>i. fmul (naturalResponseCoefficients f ! Suc i) (naturalResponse f ! i))
          [0..<SIZE - Suc 0]"
    by (simp add: comp_def)
  have hd: "(shift_history (SIZE - Suc 0) (naturalResponse f))[0 := v] ! 0 = v" for v
    using assms(1,2) by (simp add: length_shift_history)
  show ?thesis
    unfolding filterData_def Let_def difference_equation_numerator_def s2
    by (simp add: fold_fadd_foldl fold_fsub_foldl s1 hd)
qed

lemma filterData_zero_step:
  assumes "0 < SIZE"
    and "length (naturalResponseCoefficients f) = SIZE"
    and "length (forcedResponseCoefficients f) = SIZE"
    and "list_all is_finite (naturalResponseCoefficients f)"
    and "list_all is_finite (forcedResponseCoefficients f)"
    and "\<not> is_zero (naturalResponseCoefficients f ! 0)"
    and "length (naturalResponse f) = SIZE" and "length (forcedResponse f) = SIZE"
    and "list_all is_zero (naturalResponse f)" and "list_all is_zero (forcedResponse f)"
    and "is_zero dat"
  shows "is_zero (fst (filterData SIZE dat f)) \<and>
         naturalResponseCoefficients (snd (filterData SIZE dat f)) = naturalResponseCoefficients f \<and>
         forcedResponseCoefficients (snd (filterData SIZE dat f)) = forcedResponseCoefficients f \<and>
         length (naturalResponse (snd (filterData SIZE dat f))) = SIZE \<and>
         length (forcedResponse (snd (filterData SIZE dat f))) = SIZE \<and>
         list_all is_zero (naturalResponse (snd (filterData SIZE dat f))) \<and>
         list_all is_zero (forcedResponse (snd (filterData SIZE dat f)))"
proof -
  let ?fr = "(shift_history (SIZE - Suc 0) (forcedResponse f))[0 := dat]"
  let ?s1 = "fold (\<lambda>i s. fadd s (fmul (forcedResponseCoefficients f ! i) (?fr ! i)))
               [0..<SIZE] (Finite 0)"
  let ?s2 = "fold (\<lambda>i s. fsub s (fmul (naturalResponseCoefficients f ! Suc i)
               (naturalResponse f ! i))) [0..<SIZE - Suc 0] ?s1"
  let ?s3 = "fdiv ?s2 (naturalResponseCoefficients f ! 0)"
  let ?nr = "(shift_history (SIZE - Suc 0) (naturalResponse f))[0 := ?s3]"
  have fr: "list_all is_zero ?fr"
    using assms(1,8,10,11) by (rule shifted_history_all)
  have fin_n: "is_finite (naturalResponseCoefficients f ! k)" if "k < SIZE" for k
    using assms(2,4) that by (simp add: list_all_length)
  have fin_f: "is_finite (forcedResponseCoefficients f ! k)" if "k < SIZE" for k
    using assms(3,5) that by (simp add: list_all_length)
  have frk: "is_zero (?fr ! k)" if "k < SIZE" for k
    using fr that assms(8) by (simp add: list_all_length length_shift_history)
  have nrk: "is_zero (naturalResponse f ! k)" if "k < SIZE" for k
    using assms(7,9) that by (simp add: list_all_length)
  have s1: "is_zero ?s1"
    by (rule is_zero_fold_fadd) (simp_all add: is_zero_fmul fin_f frk)
  have s2: "is_zero ?s2"
    using s1 by (intro is_zero_fold_fsub) (simp_all add: is_zero_fmul fin_n nrk)
  have s3: "is_zero ?s3"
    using s2 fin_n [OF assms(1)] assms(6) by (rule is_zero_fdiv)
  have nr: "list_all is_zero ?nr"
    using assms(1,7,9) s3 by (rule shifted_history_all)
  have out: "?nr ! 0 = ?s3"
    using assms(1,7) by (simp add: length_shift_history)
  show ?thesis
    using s3 nr fr assms(7,8)
    by (simp add: filterData_def Let_def out length_shift_history)
qed

subsection \<open>The expanded polynomial and the stored coefficients\<close>

lemma length_expandPolynomial_inner: "length (expandPolynomial_inner c z j new) = length new"
  by (simp add: expandPolynomial_inner_def Let_def)

lemma length_fold_inner: "length (fold (expandPolynomial_inner c z) js new) = length new"
  by (induction js arbitrary: new) (simp_all add: length_expandPolynomial_inner)

lemma expandPolynomial_inner_above:
  "Suc j < k \<Longrightarrow> expandPolynomial_inner c z j new ! k = new ! k"
  by (simp add: expandPolynomial_inner_def Let_def)

lemma fold_inner_above:
  "m < k \<Longrightarrow> fold (expandPolynomial_inner c z) [0..<m] new ! k = new ! k"
proof (induction m)
  case 0
  show ?case by simp
next
  case (Suc m)
  then have "fold (expandPolynomial_inner c z) [0..<m] new ! k = new ! k" by simp
  with Suc.prems show ?case by (simp add: expandPolynomial_inner_above)
qed

lemma fold_inner_top:
  assumes "Suc i < length new"
  shows "fold (expandPolynomial_inner c z) [0..<Suc i] new ! Suc i = new ! Suc i + c ! i"
proof -
  let ?X = "fold (expandPolynomial_inner c z) [0..<i] new"
  have l: "length ?X = length new" by (rule length_fold_inner)
  have x: "?X ! Suc i = new ! Suc i" by (rule fold_inner_above) simp
  have "fold (expandPolynomial_inner c z) [0..<Suc i] new = expandPolynomial_inner c z i ?X"
    by simp
  also have "\<dots> ! Suc i = ?X ! Suc i + c ! i"
    using assms l by (simp add: expandPolynomial_inner_def Let_def)
  finally show ?thesis using x by simp
qed

lemma expandPolynomial_outer_invariant:
  "m \<le> ORDER \<Longrightarrow>
   length (fold (expandPolynomial_outer ORDER zeros) [0..<m] (1 # replicate ORDER 0)) = ORDER + 1 \<and>
   fold (expandPolynomial_outer ORDER zeros) [0..<m] (1 # replicate ORDER 0) ! m = 1"
proof (induction m)
  case 0
  show ?case by simp
next
  case (Suc m)
  let ?C = "fold (expandPolynomial_outer ORDER zeros) [0..<m] (1 # replicate ORDER 0)"
  let ?N = "fold (expandPolynomial_inner ?C (zeros ! m)) [0..<Suc m] (replicate (ORDER + 1) 0)"
  from Suc have c: "?C ! m = 1" by simp
  have "fold (expandPolynomial_outer ORDER zeros) [0..<Suc m] (1 # replicate ORDER 0)
      = expandPolynomial_outer ORDER zeros m ?C"
    by simp
  also have "\<dots> = ?N"
    unfolding expandPolynomial_outer_def by (simp only: Suc_eq_plus1)
  finally have step:
    "fold (expandPolynomial_outer ORDER zeros) [0..<Suc m] (1 # replicate ORDER 0) = ?N" .
  have "?N ! Suc m = replicate (ORDER + 1) 0 ! Suc m + ?C ! m"
    using Suc.prems by (intro fold_inner_top) simp
  also have "\<dots> = 1"
    using Suc.prems c by simp
  finally have top: "?N ! Suc m = 1" .
  have len: "length ?N = ORDER + 1"
    by (simp only: length_fold_inner length_replicate)
  show ?case
    unfolding step using top len by blast
qed

lemma length_expandPolynomial: "length (expandPolynomial ORDER zeros) = ORDER + 1"
  using expandPolynomial_outer_invariant [of ORDER ORDER zeros] by (simp add: expandPolynomial_def)

lemma expandPolynomial_leading: "expandPolynomial ORDER zeros ! ORDER = 1"
  using expandPolynomial_outer_invariant [of ORDER ORDER zeros] by (simp add: expandPolynomial_def)

lemma fold_pair_fst: "fst (fold (\<lambda>i (n, f). (g i n, h i f)) xs (n0, f0)) = fold g xs n0"
  by (induction xs arbitrary: n0 f0) simp_all

lemma fold_pair_snd: "snd (fold (\<lambda>i (n, f). (g i n, h i f)) xs (n0, f0)) = fold h xs f0"
  by (induction xs arbitrary: n0 f0) simp_all

lemma length_fold_store:
  "length (fold (\<lambda>i arr. arr[C - Suc i := Finite (a ! i)]) xs init) = length init"
  by (induction xs arbitrary: init) simp_all

lemma fold_store_nth:
  "m \<le> C \<Longrightarrow> k < C \<Longrightarrow>
   fold (\<lambda>i arr. arr[C - Suc i := Finite (a ! i)]) [0..<m] (replicate C (Finite 0)) ! k
     = (if C - m \<le> k then Finite (a ! (C - Suc k)) else Finite 0)"
proof (induction m)
  case 0
  then show ?case by simp
next
  case (Suc m)
  let ?A = "fold (\<lambda>i arr. arr[C - Suc i := Finite (a ! i)]) [0..<m] (replicate C (Finite 0))"
  have l: "length ?A = C" by (simp add: length_fold_store)
  have ih: "?A ! k = (if C - m \<le> k then Finite (a ! (C - Suc k)) else Finite 0)"
    using Suc by simp
  have "fold (\<lambda>i arr. arr[C - Suc i := Finite (a ! i)]) [0..<Suc m] (replicate C (Finite 0))
      = ?A[C - Suc m := Finite (a ! m)]"
    by simp
  also have "\<dots> ! k = (if C - Suc m \<le> k then Finite (a ! (C - Suc k)) else Finite 0)"
  proof (cases "k = C - Suc m")
    case True
    with Suc.prems have "C - Suc k = m" by simp
    with True Suc.prems l show ?thesis by simp
  next
    case False
    with Suc.prems have "(C - Suc m \<le> k) = (C - m \<le> k)" by auto
    with False ih show ?thesis by simp
  qed
  finally show ?case .
qed

lemma butterworth_store_natural:
  "k < C \<Longrightarrow>
   naturalResponseCoefficients (butterworth_store C a b) ! k = Finite (a ! (C - Suc k))"
proof -
  assume k: "k < C"
  have "naturalResponseCoefficients (butterworth_store C a b)
      = fold (\<lambda>i arr. arr[C - Suc i := Finite (a ! i)]) [0..<C] (replicate C (Finite 0))"
    unfolding butterworth_store_def
    by (simp add: split_beta fold_pair_fst)
  with k show ?thesis by (simp add: fold_store_nth)
qed

lemma butterworth_store_forced:
  "k < C \<Longrightarrow>
   forcedResponseCoefficients (butterworth_store C a b) ! k = Finite (b ! (C - Suc k))"
proof -
  assume k: "k < C"
  have "forcedResponseCoefficients (butterworth_store C a b)
      = fold (\<lambda>i arr. arr[C - Suc i := Finite (b ! i)]) [0..<C] (replicate C (Finite 0))"
    unfolding butterworth_store_def
    by (simp add: split_beta fold_pair_snd)
  with k show ?thesis by (simp add: fold_store_nth)
qed

lemma getNumCoefficients_pos: "0 < getNumCoefficients ORDER type"
  by (simp add: getNumCoefficients_def)

lemma butterworth_assemble_natural:
  assumes "k < getNumCoefficients ORDER type"
  shows "naturalResponseCoefficients (butterworth_assemble ORDER type zPoles zZeros scale) ! k
    = Finite (expandPolynomial (getNumCoefficients ORDER type - 1) zPoles
        ! (getNumCoefficients ORDER type - Suc k))"
  using assms by (simp add: butterworth_assemble_def Let_def butterworth_store_natural)


lemma filterData_all_zero:
  assumes "0 < SIZE"
    and "length (naturalResponseCoefficients f) = SIZE"
    and "length (forcedResponseCoefficients f) = SIZE"
    and "list_all is_finite (naturalResponseCoefficients f)"
    and "list_all is_finite (forcedResponseCoefficients f)"
    and "\<not> is_zero (naturalResponseCoefficients f ! 0)"
    and "length (naturalResponse f) = SIZE" and "length (forcedResponse f) = SIZE"
    and "list_all is_zero (naturalResponse f)" and "list_all is_zero (forcedResponse f)"
    and "list_all is_zero xs"
  shows "length (fst (filterData_all SIZE xs f)) = length xs \<and>
         list_all is_zero (fst (filterData_all SIZE xs f)) \<and>
         list_all is_zero (naturalResponse (snd (filterData_all SIZE xs f))) \<and>
         list_all is_zero (forcedResponse (snd (filterData_all SIZE xs f)))"
  using assms
proof (induction xs arbitrary: f)
  case Nil
  then show ?case by simp
next
  case (Cons x xs)
  let ?f' = "snd (filterData SIZE x f)"
  from Cons.prems(11) have x: "is_zero x" and xs: "list_all is_zero xs" by simp_all
  note step = filterData_zero_step [OF Cons.prems(1-10) x]
  have "length (fst (filterData_all SIZE xs ?f')) = length xs \<and>
        list_all is_zero (fst (filterData_all SIZE xs ?f')) \<and>
        list_all is_zero (naturalResponse (snd (filterData_all SIZE xs ?f'))) \<and>
        list_all is_zero (forcedResponse (snd (filterData_all SIZE xs ?f')))"
    using Cons.prems(1-6) step xs by (intro Cons.IH) simp_all
  with step show ?case
    by (simp add: split_beta Let_def)
qed


subsection \<open>The example filters, evaluated\<close>

lemma example_coefficients_eq:
  "example_coefficients
     = \<lparr>naturalResponseCoefficients = [Finite 1, Finite (- 1 / 2)],
        forcedResponseCoefficients = [Finite (1 / 4), Finite (1 / 4)]\<rparr>"
  unfolding example_coefficients_def by code_simp

lemma example_filter_eq:
  "example_filter
     = \<lparr>naturalResponseCoefficients = [Finite 1, Finite (- 1 / 2)],
        forcedResponseCoefficients = [Finite (1 / 4), Finite (1 / 4)],
        naturalResponse = [Finite 3, Finite 3], forcedResponse = [Finite 3, Finite 3]\<rparr>"
  unfolding example_filter_def example_coefficients_def by code_simp

lemma example_halving_eq:
  "example_halving
     = \<lparr>naturalResponseCoefficients = [Finite 2, Finite 1],
        forcedResponseCoefficients = [Finite 1, Finite 0],
        naturalResponse = [Finite 0, Finite 0], forcedResponse = [Finite 0, Finite 0]\<rparr>"
  unfolding example_halving_def by code_simp

lemma example_infinite_eq:
  "example_infinite
     = \<lparr>naturalResponseCoefficients = [Finite 1, Finite 0],
        forcedResponseCoefficients = [Infinity False, Finite 0],
        naturalResponse = [Finite 0, Finite 0], forcedResponse = [Finite 0, Finite 0]\<rparr>"
  unfolding example_infinite_def by code_simp

lemma example_filter_output:
  "fst (filterData 2 (Finite 1) example_filter) = Finite (5 / 2)"
  unfolding example_filter_def example_coefficients_def by code_simp

lemma example_filter_last_divisor:
  "fdiv (difference_equation_numerator 2 example_filter (Finite 1))
     (naturalResponseCoefficients example_filter ! (2 - 1)) = Finite (- 5)"
  unfolding example_filter_def example_coefficients_def by code_simp

lemma example_halving_numerator:
  "difference_equation_numerator 2 example_halving (Finite 1) = Finite 1"
  unfolding example_halving_def by code_simp

lemma example_halving_quotient:
  "fdiv (Finite 1) (Finite 2) = Finite (1 / 2)"
  by code_simp

lemma example_infinite_output:
  "fst (filterData 2 (Finite 0) (snd (reset 2 example_infinite))) = NaN"
  unfolding example_infinite_def by code_simp

subsection \<open>The divisor of \<open>filterData\<close>\<close>

text \<open>
  C2 as stated fails: for the order-1 low-pass design with pole 1/2 the stored natural
  coefficients are \<open>[1, -1/2]\<close>. The entry at index N-1 = 1 is -1/2, and \<open>filterData\<close> does
  not divide by it: on the sample 1 with histories \<open>[3, 3]\<close> it returns 5/2, where the
  quotient by the entry at index N-1 is -5.
\<close>

theorem last_coefficient_is_not_the_divisor:
  "getNumCoefficients 1 LOWPASS = 2 \<and>
   naturalResponseCoefficients example_filter = naturalResponseCoefficients example_coefficients \<and>
   naturalResponseCoefficients example_filter ! (2 - 1) = Finite (- 1 / 2) \<and>
   fst (filterData 2 (Finite 1) example_filter) = Finite (5 / 2) \<and>
   fdiv (difference_equation_numerator 2 example_filter (Finite 1))
     (naturalResponseCoefficients example_filter ! (2 - 1)) = Finite (- 5) \<and>
   fst (filterData 2 (Finite 1) example_filter)
     \<noteq> fdiv (difference_equation_numerator 2 example_filter (Finite 1))
         (naturalResponseCoefficients example_filter ! (2 - 1))"
proof -
  have n: "getNumCoefficients 1 LOWPASS = 2"
    by (simp add: getNumCoefficients_def)
  have c: "naturalResponseCoefficients example_filter
      = naturalResponseCoefficients example_coefficients"
    by (simp add: example_filter_eq example_coefficients_eq)
  have l: "naturalResponseCoefficients example_filter ! (2 - 1) = Finite (- 1 / 2)"
    by (simp add: example_filter_eq)
  have ne: "fst (filterData 2 (Finite 1) example_filter)
      \<noteq> fdiv (difference_equation_numerator 2 example_filter (Finite 1))
          (naturalResponseCoefficients example_filter ! (2 - 1))"
    unfolding example_filter_output example_filter_last_divisor by simp
  from n c l example_filter_output example_filter_last_divisor ne show ?thesis
    by blast
qed

text \<open>
  C2 as amended: in the coefficients the Butterworth design stores, the entry at index 0
  of \<open>naturalResponseCoefficients\<close> is the leading coefficient of the expanded pole
  polynomial (moved there by the reversal, which puts the constant term at index N-1); it
  is exactly 1, hence nonzero. The divisor of \<open>filterData\<close> is the entry at index 0: for
  every filter, whatever its coefficients, the value returned is the numerator of the
  difference equation divided by \<open>naturalResponseCoefficients ! 0\<close>.
\<close>

theorem leading_coefficient_is_the_divisor:
  assumes "N = getNumCoefficients ORDER type"
    and "length zPoles = N - 1" and "length zZeros = N - 1"
    and "c = butterworth_assemble ORDER type zPoles zZeros scale"
    and "0 < SIZE" and "length (naturalResponse g) = SIZE" and "length (forcedResponse g) = SIZE"
  shows "naturalResponseCoefficients c ! 0 = Finite (expandPolynomial (N - 1) zPoles ! (N - 1)) \<and>
         naturalResponseCoefficients c ! 0 = Finite 1 \<and>
         \<not> is_zero (naturalResponseCoefficients c ! 0) \<and>
         naturalResponseCoefficients c ! (N - 1) = Finite (expandPolynomial (N - 1) zPoles ! 0) \<and>
         naturalResponseCoefficients (butterworth ORDER type wc Ts wh) ! 0 = Finite 1 \<and>
         fst (filterData SIZE dat g)
           = fdiv (difference_equation_numerator SIZE g dat) (naturalResponseCoefficients g ! 0)"
proof -
  have pos: "0 < N"
    unfolding assms(1) by (rule getNumCoefficients_pos)
  have first: "naturalResponseCoefficients c ! 0
      = Finite (expandPolynomial (N - 1) zPoles ! (N - 1))"
    using pos butterworth_assemble_natural [of 0 ORDER type zPoles zZeros scale]
    unfolding assms(4) assms(1) by simp
  have "N - Suc (N - 1) = 0" by simp
  then have last: "naturalResponseCoefficients c ! (N - 1)
      = Finite (expandPolynomial (N - 1) zPoles ! 0)"
    using pos butterworth_assemble_natural [of "N - 1" ORDER type zPoles zZeros scale]
    unfolding assms(4) assms(1) by simp
  have one: "naturalResponseCoefficients c ! 0 = Finite 1"
    unfolding first by (simp only: expandPolynomial_leading)
  have design: "naturalResponseCoefficients (butterworth ORDER type wc Ts wh) ! 0 = Finite 1"
    using pos [unfolded assms(1)]
    by (simp add: butterworth_def Let_def butterworth_assemble_natural expandPolynomial_leading)
  have out: "fst (filterData SIZE dat g)
      = fdiv (difference_equation_numerator SIZE g dat) (naturalResponseCoefficients g ! 0)"
    using assms(5,6,7) by (rule filterData_output)
  from first last one design out show ?thesis by simp
qed

theorem leading_coefficient_is_the_divisor_witness:
  "(2::nat) = getNumCoefficients 1 LOWPASS \<and>
   length [1 / 2 :: complex] = 2 - 1 \<and> length [- 1 :: complex] = 2 - 1 \<and>
   example_coefficients = butterworth_assemble 1 LOWPASS [1 / 2] [- 1] (1 / 4) \<and>
   (0::nat) < 2 \<and>
   length (naturalResponse example_halving) = 2 \<and> length (forcedResponse example_halving) = 2 \<and>
   naturalResponseCoefficients example_coefficients ! 0 = Finite 1 \<and>
   naturalResponseCoefficients example_halving ! 0 = Finite 2 \<and>
   difference_equation_numerator 2 example_halving (Finite 1) = Finite 1 \<and>
   fst (filterData 2 (Finite 1) example_halving) = Finite (1 / 2)"
proof -
  have h1: "(2::nat) = getNumCoefficients 1 LOWPASS"
    by (simp add: getNumCoefficients_def)
  have h2: "length [1 / 2 :: complex] = 2 - 1" and h3: "length [- 1 :: complex] = 2 - 1"
    by simp_all
  have h4: "example_coefficients = butterworth_assemble 1 LOWPASS [1 / 2] [- 1] (1 / 4)"
    by (rule example_coefficients_def)
  have h5: "(0::nat) < 2" by simp
  have h6: "length (naturalResponse example_halving) = 2"
    and h7: "length (forcedResponse example_halving) = 2"
    by (simp_all add: example_halving_eq)
  have d: "naturalResponseCoefficients example_halving ! 0 = Finite 2"
    by (simp add: example_halving_eq)
  from leading_coefficient_is_the_divisor [OF h1 h2 h3 h4 h5 h6 h7, where dat = "Finite 1"]
  have "naturalResponseCoefficients example_coefficients ! 0 = Finite 1"
    and "fst (filterData 2 (Finite 1) example_halving)
      = fdiv (difference_equation_numerator 2 example_halving (Finite 1))
          (naturalResponseCoefficients example_halving ! 0)"
    by blast+
  then have "naturalResponseCoefficients example_coefficients ! 0 = Finite 1"
    and "fst (filterData 2 (Finite 1) example_halving) = Finite (1 / 2)"
    by (simp_all only: d example_halving_numerator example_halving_quotient)
  with h1 h2 h3 h4 h5 h6 h7 d example_halving_numerator show ?thesis by blast
qed

subsection \<open>All-zero input\<close>

text \<open>
  C8 as stated fails: a coefficient set whose natural-response coefficient at index 0 is
  nonzero may hold an infinity or a NaN elsewhere. With natural-response coefficients
  \<open>[1, 0]\<close> and forced-response coefficients \<open>[+\<infinity>, 0]\<close>, the first \<open>filterData 0\<close> call after
  \<open>reset\<close> computes \<open>\<infinity> * 0\<close> and returns a NaN.
\<close>

theorem zero_input_with_infinite_coefficient:
  "naturalResponseCoefficients example_infinite ! 0 = Finite 1 \<and>
   \<not> is_zero (naturalResponseCoefficients example_infinite ! 0) \<and>
   forcedResponseCoefficients example_infinite = [Infinity False, Finite 0] \<and>
   naturalResponse (snd (reset 2 example_infinite)) = [Finite 0, Finite 0] \<and>
   forcedResponse (snd (reset 2 example_infinite)) = [Finite 0, Finite 0] \<and>
   fst (filterData 2 (Finite 0) (snd (reset 2 example_infinite))) = NaN \<and>
   \<not> is_zero (fst (filterData 2 (Finite 0) (snd (reset 2 example_infinite))))"
proof -
  have r: "snd (reset 2 example_infinite) = example_infinite"
    by (simp add: example_infinite_eq reset_def numeral_2_eq_2)
  have "\<not> is_zero (fst (filterData 2 (Finite 0) (snd (reset 2 example_infinite))))"
    unfolding example_infinite_output by simp
  with example_infinite_output show ?thesis
    by (simp add: r) (simp add: example_infinite_eq)
qed

text \<open>
  C8 as amended: for every coefficient set of finite values (two arrays of \<open>SIZE\<close> entries,
  none an infinity or a NaN) whose natural-response coefficient at index 0 is nonzero,
  after \<open>reset\<close> every \<open>filterData 0\<close> call returns a zero and leaves both history buffers
  all-zero, so an all-zero input sequence of any length gives an all-zero output sequence.
  A zero is \<open>+0\<close> or \<open>-0\<close>; both compare equal to 0.
\<close>

theorem zero_input_gives_zero_output:
  assumes "0 < SIZE"
    and "length (naturalResponseCoefficients f) = SIZE"
    and "length (forcedResponseCoefficients f) = SIZE"
    and "list_all is_finite (naturalResponseCoefficients f)"
    and "list_all is_finite (forcedResponseCoefficients f)"
    and "\<not> is_zero (naturalResponseCoefficients f ! 0)"
  shows "is_zero (fst (filterData SIZE (Finite 0) (snd (reset SIZE f)))) \<and>
         list_all is_zero (naturalResponse (snd (filterData SIZE (Finite 0) (snd (reset SIZE f))))) \<and>
         list_all is_zero (forcedResponse (snd (filterData SIZE (Finite 0) (snd (reset SIZE f))))) \<and>
         length (fst (filterData_all SIZE (replicate n (Finite 0)) (snd (reset SIZE f)))) = n \<and>
         list_all is_zero (fst (filterData_all SIZE (replicate n (Finite 0)) (snd (reset SIZE f)))) \<and>
         list_all is_zero
           (naturalResponse (snd (filterData_all SIZE (replicate n (Finite 0)) (snd (reset SIZE f))))) \<and>
         list_all is_zero
           (forcedResponse (snd (filterData_all SIZE (replicate n (Finite 0)) (snd (reset SIZE f)))))"
proof -
  let ?f = "snd (reset SIZE f)"
  have c: "naturalResponseCoefficients ?f = naturalResponseCoefficients f"
    "forcedResponseCoefficients ?f = forcedResponseCoefficients f"
    by (simp_all add: reset_def)
  have l: "length (naturalResponse ?f) = SIZE" "length (forcedResponse ?f) = SIZE"
    by (simp_all add: reset_def)
  have z: "list_all is_zero (naturalResponse ?f)" "list_all is_zero (forcedResponse ?f)"
    by (simp_all add: reset_def list_all_length)
  have zs: "list_all is_zero (replicate n (Finite 0))"
    by (simp add: list_all_length)
  have a: "length (naturalResponseCoefficients ?f) = SIZE"
    "length (forcedResponseCoefficients ?f) = SIZE"
    "list_all is_finite (naturalResponseCoefficients ?f)"
    "list_all is_finite (forcedResponseCoefficients ?f)"
    "\<not> is_zero (naturalResponseCoefficients ?f ! 0)"
    using assms(2-6) by (simp_all only: c simp_thms)
  have d: "is_zero (Finite 0)" by simp
  from filterData_zero_step [OF assms(1) a l z d]
    filterData_all_zero [OF assms(1) a l z zs]
  show ?thesis by simp
qed

theorem zero_input_gives_zero_output_witness:
  "(0::nat) < 2 \<and>
   length (naturalResponseCoefficients example_filter) = 2 \<and>
   length (forcedResponseCoefficients example_filter) = 2 \<and>
   list_all is_finite (naturalResponseCoefficients example_filter) \<and>
   list_all is_finite (forcedResponseCoefficients example_filter) \<and>
   \<not> is_zero (naturalResponseCoefficients example_filter ! 0) \<and>
   naturalResponse example_filter = [Finite 3, Finite 3] \<and>
   is_zero (fst (filterData 2 (Finite 0) (snd (reset 2 example_filter)))) \<and>
   length (fst (filterData_all 2 (replicate 3 (Finite 0)) (snd (reset 2 example_filter)))) = 3 \<and>
   list_all is_zero (fst (filterData_all 2 (replicate 3 (Finite 0)) (snd (reset 2 example_filter))))"
proof -
  have h1: "(0::nat) < 2" by simp
  have h2: "length (naturalResponseCoefficients example_filter) = 2"
    and h3: "length (forcedResponseCoefficients example_filter) = 2"
    and h4: "list_all is_finite (naturalResponseCoefficients example_filter)"
    and h5: "list_all is_finite (forcedResponseCoefficients example_filter)"
    and h6: "\<not> is_zero (naturalResponseCoefficients example_filter ! 0)"
    and v: "naturalResponse example_filter = [Finite 3, Finite 3]"
    by (simp_all add: example_filter_eq)
  from zero_input_gives_zero_output [OF h1 h2 h3 h4 h5 h6, of 3] h1 h2 h3 h4 h5 h6 v
  show ?thesis by blast
qed

subsection \<open>The order-1 Butterworth designs\<close>

lemma getNumCoefficients_1:
  "getNumCoefficients (Suc 0) LOWPASS = 2" "getNumCoefficients (Suc 0) HIGHPASS = 2"
  by (simp_all add: getNumCoefficients_def)

lemma butterworth_prototype_poles_1: "butterworth_prototype_poles (Suc 0) = [- 1]"
  by (simp add: butterworth_prototype_poles_def Let_def complex_eq_iff)

lemma expandPolynomial_1: "expandPolynomial (Suc 0) [z] = [- Re z, 1]"
  by (simp add: expandPolynomial_def expandPolynomial_outer_def expandPolynomial_inner_def)

lemma evaluateFrequencyResponse_sum_2:
  "evaluateFrequencyResponse_sum [c0, c1] omega
     = of_real c0 + of_real c1 * (of_real (cos omega) - Complex 0 1 * of_real (sin omega))"
  by (simp add: evaluateFrequencyResponse_sum_def Let_def numeral_2_eq_2)

lemma evaluateFrequencyResponse_sum_at_0:
  "evaluateFrequencyResponse_sum [c0, c1] 0 = of_real (c0 + c1)"
  by (simp add: evaluateFrequencyResponse_sum_2)

lemma evaluateFrequencyResponse_sum_at_pi:
  "evaluateFrequencyResponse_sum [c0, c1] pi = of_real (c0 - c1)"
  by (simp add: evaluateFrequencyResponse_sum_2)

lemma evaluateFrequencyResponse_real:
  assumes "evaluateFrequencyResponse_sum b (w * Ts) = of_real x"
    and "evaluateFrequencyResponse_sum a (w * Ts) = of_real y"
  shows "evaluateFrequencyResponse b a w Ts = of_real (x / y)"
  by (simp add: evaluateFrequencyResponse_def Let_def assms)

lemma complexAbs_of_real: "complexAbs (of_real x) = \<bar>x\<bar>"
  by (simp add: complexAbs_def)

lemma butterworth_store_2:
  "butterworth_store 2 [a0, a1] [b0, b1]
     = \<lparr>naturalResponseCoefficients = [Finite a1, Finite a0],
        forcedResponseCoefficients = [Finite b1, Finite b0]\<rparr>"
  by (simp add: butterworth_store_def numeral_2_eq_2)

lemma s2z_real_pole:
  assumes "Ts \<noteq> 0" and "tan (wc * (Ts / 2)) = t"
  shows "s2z (- of_real (butterworth_prewarp wc Ts)) Ts = of_real ((1 - t) / (1 + t))"
proof -
  have r: "Ts / 2 * butterworth_prewarp wc Ts = t"
    using assms by (simp add: butterworth_prewarp_def)
  have "of_real (Ts / 2) * - complex_of_real (butterworth_prewarp wc Ts)
      = of_real (- (Ts / 2 * butterworth_prewarp wc Ts))"
    by (simp only: of_real_mult of_real_minus mult_minus_right)
  also have "\<dots> = - of_real t"
    by (simp only: r of_real_minus)
  finally have e: "of_real (Ts / 2) * - complex_of_real (butterworth_prewarp wc Ts)
      = - of_real t" .
  have "s2z (- of_real (butterworth_prewarp wc Ts)) Ts
      = (1 + - complex_of_real t) / (1 - - complex_of_real t)"
    unfolding s2z_def e ..
  also have "\<dots> = of_real ((1 - t) / (1 + t))"
    by simp
  finally show ?thesis .
qed

lemma butterworth_zPoles_1:
  assumes "Ts \<noteq> 0" and "tan (wc * (Ts / 2)) = t" and "type = LOWPASS \<or> type = HIGHPASS"
  shows "butterworth_zPoles (Suc 0) type (butterworth_prewarp wc Ts) whp Ts
           = [of_real ((1 - t) / (1 + t))]"
proof -
  have "butterworth_analog_poles (Suc 0) type (butterworth_prewarp wc Ts) whp
      = [- of_real (butterworth_prewarp wc Ts)]"
    using assms(3) by (auto simp add: butterworth_prototype_poles_1)
  moreover have "getNumCoefficients (Suc 0) type - 1 = Suc 0"
    using assms(3) by (auto simp add: getNumCoefficients_1)
  ultimately show ?thesis
    by (simp add: butterworth_zPoles_def s2z_real_pole [OF assms(1,2)])
qed

lemma butterworth_zZeros_1:
  "butterworth_zZeros (Suc 0) LOWPASS wl whp Ts = [- 1]"
  "butterworth_zZeros (Suc 0) HIGHPASS wl whp Ts = [1]"
  by (simp_all add: getNumCoefficients_def complex_eq_iff)

lemma butterworth_mag_LOWPASS_1:
  assumes "Ts \<noteq> 0" and "tan (wc * (Ts / 2)) = t" and "0 < t"
  shows "butterworth_mag (Suc 0) LOWPASS wc Ts wh = (1 + t) / t"
proof -
  let ?zp = "(1 - t) / (1 + t)"
  have d: "- ?zp + 1 = 2 * t / (1 + t)"
    using assms(3) by (simp add: field_simps)
  have "evaluateFrequencyResponse [1, 1] [- ?zp, 1] 0 Ts = of_real ((1 + 1) / (- ?zp + 1))"
    by (rule evaluateFrequencyResponse_real) (simp_all only: mult_zero_left evaluateFrequencyResponse_sum_at_0)
  also have "(1 + 1) / (- ?zp + 1) = (1 + t) / t"
    unfolding d using assms(3) by (simp add: field_simps)
  finally have "complexAbs (evaluateFrequencyResponse [1, 1] [- ?zp, 1] 0 Ts) = \<bar>(1 + t) / t\<bar>"
    by (simp only: complexAbs_of_real)
  also have "\<dots> = (1 + t) / t"
    using assms(3) by simp
  finally have m: "complexAbs (evaluateFrequencyResponse [1, 1] [- ?zp, 1] 0 Ts) = (1 + t) / t" .
  have z: "butterworth_zPoles (Suc 0) LOWPASS (butterworth_prewarp wc Ts)
      (butterworth_prewarp wh Ts) Ts = [of_real ?zp]"
    using assms(1,2) by (rule butterworth_zPoles_1) simp
  show ?thesis
    unfolding butterworth_mag_def Let_def getNumCoefficients_1 z butterworth_zZeros_1
    by (simp add: expandPolynomial_1 m)
qed


lemma butterworth_LOWPASS_1:
  assumes "Ts \<noteq> 0" and "tan (wc * (Ts / 2)) = t" and "0 < t"
  shows "butterworth (Suc 0) LOWPASS wc Ts wh
           = \<lparr>naturalResponseCoefficients = [Finite 1, Finite (- ((1 - t) / (1 + t)))],
              forcedResponseCoefficients = [Finite (t / (1 + t)), Finite (t / (1 + t))]\<rparr>"
proof -
  have z: "butterworth_zPoles (Suc 0) LOWPASS (butterworth_prewarp wc Ts)
      (butterworth_prewarp wh Ts) Ts = [of_real ((1 - t) / (1 + t))]"
    using assms(1,2) by (rule butterworth_zPoles_1) simp
  have sc: "1 / butterworth_mag (Suc 0) LOWPASS wc Ts wh = t / (1 + t)"
    unfolding butterworth_mag_LOWPASS_1 [OF assms] by simp
  show ?thesis
    unfolding butterworth_def Let_def sc z butterworth_zZeros_1 butterworth_assemble_def
      getNumCoefficients_1
    by (simp add: expandPolynomial_1 butterworth_store_2)
qed

lemma gain_LOWPASS_1:
  assumes "Ts \<noteq> 0" and "tan (wc * (Ts / 2)) = t" and "0 < t"
  shows "gain (butterworth (Suc 0) LOWPASS wc Ts wh) 0 Ts = 1"
proof -
  let ?zp = "(1 - t) / (1 + t)"
  let ?s = "t / (1 + t)"
  have n: "?s + ?s = 2 * t / (1 + t)"
    by simp
  have d: "1 + - ?zp = 2 * t / (1 + t)"
    using assms(3) by (simp add: field_simps)
  have nz: "2 * t / (1 + t) \<noteq> 0"
    using assms(3) by simp
  have q: "(?s + ?s) / (1 + - ?zp) = 1"
    unfolding n d using nz by simp
  have "evaluateFrequencyResponse [?s, ?s] [1, - ?zp] 0 Ts = of_real ((?s + ?s) / (1 + - ?zp))"
    by (rule evaluateFrequencyResponse_real)
       (simp_all only: mult_zero_left evaluateFrequencyResponse_sum_at_0)
  then have "complexAbs (evaluateFrequencyResponse [?s, ?s] [1, - ?zp] 0 Ts) = 1"
    by (simp only: q complexAbs_of_real abs_one)
  then show ?thesis
    unfolding gain_def frequency_response_def butterworth_LOWPASS_1 [OF assms]
    by simp
qed

lemma butterworth_mag_HIGHPASS_1:
  assumes "Ts \<noteq> 0" and "tan (wc * (Ts / 2)) = t" and "0 < t"
  shows "butterworth_mag (Suc 0) HIGHPASS wc Ts wh = 1 + t"
proof -
  let ?zp = "(1 - t) / (1 + t)"
  have w: "pi / Ts * Ts = pi"
    using assms(1) by simp
  have d: "(- 1 - 1) / (- ?zp - 1) = 1 + t"
    using assms(3) by (simp add: field_simps)
  have "evaluateFrequencyResponse [- 1, 1] [- ?zp, 1] (pi / Ts) Ts
      = of_real ((- 1 - 1) / (- ?zp - 1))"
    by (rule evaluateFrequencyResponse_real)
       (simp_all only: w evaluateFrequencyResponse_sum_at_pi)
  then have "complexAbs (evaluateFrequencyResponse [- 1, 1] [- ?zp, 1] (pi / Ts) Ts) = \<bar>1 + t\<bar>"
    by (simp only: d complexAbs_of_real)
  also have "\<dots> = 1 + t"
    using assms(3) by simp
  finally have m:
    "complexAbs (evaluateFrequencyResponse [- 1, 1] [- ?zp, 1] (pi / Ts) Ts) = 1 + t" .
  have z: "butterworth_zPoles (Suc 0) HIGHPASS (butterworth_prewarp wc Ts)
      (butterworth_prewarp wh Ts) Ts = [of_real ?zp]"
    using assms(1,2) by (rule butterworth_zPoles_1) simp
  show ?thesis
    unfolding butterworth_mag_def Let_def getNumCoefficients_1 z butterworth_zZeros_1
    by (simp add: expandPolynomial_1 m)
qed

lemma butterworth_HIGHPASS_1:
  assumes "Ts \<noteq> 0" and "tan (wc * (Ts / 2)) = t" and "0 < t"
  shows "butterworth (Suc 0) HIGHPASS wc Ts wh
           = \<lparr>naturalResponseCoefficients = [Finite 1, Finite (- ((1 - t) / (1 + t)))],
              forcedResponseCoefficients = [Finite (1 / (1 + t)), Finite (- (1 / (1 + t)))]\<rparr>"
proof -
  have z: "butterworth_zPoles (Suc 0) HIGHPASS (butterworth_prewarp wc Ts)
      (butterworth_prewarp wh Ts) Ts = [of_real ((1 - t) / (1 + t))]"
    using assms(1,2) by (rule butterworth_zPoles_1) simp
  show ?thesis
    unfolding butterworth_def Let_def butterworth_mag_HIGHPASS_1 [OF assms] z
      butterworth_zZeros_1 butterworth_assemble_def getNumCoefficients_1
    by (simp add: expandPolynomial_1 butterworth_store_2)
qed

lemma gain_HIGHPASS_1:
  assumes "Ts \<noteq> 0" and "tan (wc * (Ts / 2)) = t" and "0 < t"
  shows "gain (butterworth (Suc 0) HIGHPASS wc Ts wh) (pi / Ts) Ts = 1"
proof -
  let ?zp = "(1 - t) / (1 + t)"
  let ?s = "1 / (1 + t)"
  have w: "pi / Ts * Ts = pi"
    using assms(1) by simp
  have n: "?s - - ?s = 2 / (1 + t)"
    by simp
  have d: "1 - - ?zp = 2 / (1 + t)"
    using assms(3) by (simp add: field_simps)
  have nz: "2 / (1 + t) \<noteq> 0"
    using assms(3) by simp
  have q: "(?s - - ?s) / (1 - - ?zp) = 1"
    unfolding n d using nz by simp
  have "evaluateFrequencyResponse [?s, - ?s] [1, - ?zp] (pi / Ts) Ts
      = of_real ((?s - - ?s) / (1 - - ?zp))"
    by (rule evaluateFrequencyResponse_real)
       (simp_all only: w evaluateFrequencyResponse_sum_at_pi)
  then have "complexAbs (evaluateFrequencyResponse [?s, - ?s] [1, - ?zp] (pi / Ts) Ts) = 1"
    by (simp only: q complexAbs_of_real abs_one)
  then show ?thesis
    unfolding gain_def frequency_response_def butterworth_HIGHPASS_1 [OF assms]
    by simp
qed

lemma butterworth_divisors_nonzero_1:
  assumes "Ts \<noteq> 0" and "tan (wc * (Ts / 2)) = t" and "0 < t"
    and "type = LOWPASS \<or> type = HIGHPASS"
  shows "butterworth_divisors_nonzero (Suc 0) type wc Ts wh"
proof -
  let ?zp = "(1 - t) / (1 + t)"
  let ?wl = "butterworth_prewarp wc Ts"
  let ?whp = "butterworth_prewarp wh Ts"
  have r: "Ts / 2 * ?wl = t"
    using assms(1,2) by (simp add: butterworth_prewarp_def)
  have "1 - of_real (Ts / 2) * - complex_of_real ?wl = of_real (1 + Ts / 2 * ?wl)"
    by (simp only: of_real_add of_real_mult of_real_1 mult_minus_right diff_minus_eq_add)
  also have "\<dots> = of_real (1 + t)"
    by (simp only: r)
  finally have "1 - of_real (Ts / 2) * - complex_of_real ?wl = of_real (1 + t)" .
  moreover have "complex_of_real (1 + t) \<noteq> 0"
  proof -
    from assms(3) have "1 + t \<noteq> 0" by simp
    then show ?thesis by (simp only: of_real_eq_0_iff not_False_eq_True)
  qed
  ultimately have nz: "1 - of_real (Ts / 2) * - complex_of_real ?wl \<noteq> 0"
    by (simp only: not_False_eq_True)
  have ap: "butterworth_analog_poles (Suc 0) type ?wl ?whp = [- of_real ?wl]"
    using assms(4) by (auto simp add: butterworth_prototype_poles_1)
  have poles: "list_all (\<lambda>p. 1 - of_real (Ts / 2) * p \<noteq> 0)
      (butterworth_analog_poles (Suc 0) type ?wl ?whp)"
    unfolding ap using nz by (simp only: list.pred_inject simp_thms)
  have z: "butterworth_zPoles (Suc 0) type ?wl ?whp Ts = [of_real ?zp]"
    using assms(1,2,4) by (rule butterworth_zPoles_1)
  have n: "getNumCoefficients (Suc 0) type - 1 = Suc 0"
    using assms(4) by (auto simp add: getNumCoefficients_1)
  have w: "pi / Ts * Ts = pi"
    using assms(1) by simp
  have low: "- ?zp + 1 \<noteq> 0" and high: "- ?zp - 1 \<noteq> 0"
    using assms(3) by (simp_all add: field_simps)
  have den: "evaluateFrequencyResponse_sum (expandPolynomial (getNumCoefficients (Suc 0) type - 1)
      (butterworth_zPoles (Suc 0) type ?wl ?whp Ts)) (butterworth_reference type ?wl ?whp Ts * Ts)
      \<noteq> 0"
  proof -
    have e: "expandPolynomial (getNumCoefficients (Suc 0) type - 1)
        (butterworth_zPoles (Suc 0) type ?wl ?whp Ts) = [- ?zp, 1]"
      unfolding n z by (simp add: expandPolynomial_1)
    from assms(4) show ?thesis
    proof
      assume "type = LOWPASS"
      then show ?thesis
        unfolding e using low
        by (simp only: butterworth_reference.simps mult_zero_left
            evaluateFrequencyResponse_sum_at_0 of_real_eq_0_iff not_False_eq_True)
    next
      assume "type = HIGHPASS"
      then show ?thesis
        unfolding e using high
        by (simp only: butterworth_reference.simps w
            evaluateFrequencyResponse_sum_at_pi of_real_eq_0_iff not_False_eq_True)
    qed
  qed
  have mag: "butterworth_mag (Suc 0) type wc Ts wh \<noteq> 0"
    using assms(3,4) butterworth_mag_LOWPASS_1 [OF assms(1-3), of wh]
      butterworth_mag_HIGHPASS_1 [OF assms(1-3), of wh]
    by auto
  show ?thesis
    unfolding butterworth_divisors_nonzero_def Let_def
    using assms(1) poles den mag by (simp add: butterworth_prototype_poles_1)
qed

lemma gain_denominator_LOWPASS_1:
  assumes "Ts \<noteq> 0" and "tan (wc * (Ts / 2)) = t" and "0 < t"
  shows "evaluateFrequencyResponse_sum
           (map float_value (naturalResponseCoefficients (butterworth (Suc 0) LOWPASS wc Ts wh)))
           (0 * Ts) \<noteq> 0"
proof -
  have l: "map float_value [Finite 1, Finite x] = [1, x]" for x
    by simp
  have "1 + - ((1 - t) / (1 + t)) \<noteq> 0"
    using assms(3) by (simp add: field_simps)
  then show ?thesis
    unfolding butterworth_LOWPASS_1 [OF assms]
    by (simp only: Coefficients.simps l mult_zero_left evaluateFrequencyResponse_sum_at_0
        of_real_eq_0_iff not_False_eq_True)
qed

lemma gain_denominator_HIGHPASS_1:
  assumes "Ts \<noteq> 0" and "tan (wc * (Ts / 2)) = t" and "0 < t"
  shows "evaluateFrequencyResponse_sum
           (map float_value (naturalResponseCoefficients (butterworth (Suc 0) HIGHPASS wc Ts wh)))
           (pi / Ts * Ts) \<noteq> 0"
proof -
  have w: "pi / Ts * Ts = pi"
    using assms(1) by simp
  have l: "map float_value [Finite 1, Finite x] = [1, x]" for x
    by simp
  have "1 - - ((1 - t) / (1 + t)) \<noteq> 0"
    using assms(3) by (simp add: field_simps)
  then show ?thesis
    unfolding butterworth_HIGHPASS_1 [OF assms] w
    by (simp only: Coefficients.simps l evaluateFrequencyResponse_sum_at_pi of_real_eq_0_iff
        not_False_eq_True)
qed

lemma design_order_gain_LOWPASS_1:
  assumes "Ts \<noteq> 0" and "tan (wc * (Ts / 2)) = t" and "0 < t"
  shows "design_order_gain (butterworth (Suc 0) LOWPASS wc Ts wh) 0 Ts = 1"
proof -
  let ?zp = "(1 - t) / (1 + t)"
  let ?s = "t / (1 + t)"
  have n: "?s + ?s = 2 * t / (1 + t)"
    by simp
  have d: "- ?zp + 1 = 2 * t / (1 + t)"
    using assms(3) by (simp add: field_simps)
  have nz: "2 * t / (1 + t) \<noteq> 0"
    using assms(3) by simp
  have q: "(?s + ?s) / (- ?zp + 1) = 1"
    unfolding n d using nz by simp
  have "evaluateFrequencyResponse [?s, ?s] [- ?zp, 1] 0 Ts = of_real ((?s + ?s) / (- ?zp + 1))"
    by (rule evaluateFrequencyResponse_real)
       (simp_all only: mult_zero_left evaluateFrequencyResponse_sum_at_0)
  then have "complexAbs (evaluateFrequencyResponse [?s, ?s] [- ?zp, 1] 0 Ts) = 1"
    by (simp only: q complexAbs_of_real abs_one)
  then show ?thesis
    unfolding design_order_gain_def butterworth_LOWPASS_1 [OF assms]
    by simp
qed

lemma design_order_gain_HIGHPASS_1:
  assumes "Ts \<noteq> 0" and "tan (wc * (Ts / 2)) = t" and "0 < t"
  shows "design_order_gain (butterworth (Suc 0) HIGHPASS wc Ts wh) (pi / Ts) Ts = 1"
proof -
  let ?zp = "(1 - t) / (1 + t)"
  let ?s = "1 / (1 + t)"
  have w: "pi / Ts * Ts = pi"
    using assms(1) by simp
  have n: "- ?s - ?s = - (2 / (1 + t))"
    by simp
  have d: "- ?zp - 1 = - (2 / (1 + t))"
    using assms(3) by (simp add: field_simps)
  have nz: "- (2 / (1 + t)) \<noteq> 0"
    using assms(3) by simp
  have q: "(- ?s - ?s) / (- ?zp - 1) = 1"
    unfolding n d using nz by simp
  have "evaluateFrequencyResponse [- ?s, ?s] [- ?zp, 1] (pi / Ts) Ts
      = of_real ((- ?s - ?s) / (- ?zp - 1))"
    by (rule evaluateFrequencyResponse_real)
       (simp_all only: w evaluateFrequencyResponse_sum_at_pi)
  then have "complexAbs (evaluateFrequencyResponse [- ?s, ?s] [- ?zp, 1] (pi / Ts) Ts) = 1"
    by (simp only: q complexAbs_of_real abs_one)
  then show ?thesis
    unfolding design_order_gain_def butterworth_HIGHPASS_1 [OF assms]
    by simp
qed

lemma tan_pi_100: "0 < tan (2 * pi * 10 * (1 / 1000 / 2))"
proof -
  have "2 * pi * 10 * (1 / 1000 / 2) = pi / 100" by simp
  moreover have "0 < tan (pi / 100)"
    by (rule tan_gt_zero) (simp_all add: pi_gt_zero)
  ultimately show ?thesis by simp
qed


text \<open>
  C9: for the coefficients \<open>butterworth\<close> produces with order 1, cutoff \<open>2 * pi * 10\<close> and
  sample period 1/1000, the magnitude of the frequency response is 1 at frequency 0 for
  the low-pass type and 1 at the Nyquist frequency \<open>pi / Ts\<close> for the high-pass type, in
  either order of reading the coefficient arrays. The equality is exact in the arithmetic
  of the real numbers, and no division of either computation is by zero.
\<close>

theorem butterworth_order_1_unit_gain:
  "gain (butterworth 1 LOWPASS (2 * pi * 10) (1 / 1000) 0) 0 (1 / 1000) = 1 \<and>
   gain (butterworth 1 HIGHPASS (2 * pi * 10) (1 / 1000) 0) (pi / (1 / 1000)) (1 / 1000) = 1 \<and>
   design_order_gain (butterworth 1 LOWPASS (2 * pi * 10) (1 / 1000) 0) 0 (1 / 1000) = 1 \<and>
   design_order_gain (butterworth 1 HIGHPASS (2 * pi * 10) (1 / 1000) 0)
     (pi / (1 / 1000)) (1 / 1000) = 1 \<and>
   butterworth_divisors_nonzero 1 LOWPASS (2 * pi * 10) (1 / 1000) 0 \<and>
   butterworth_divisors_nonzero 1 HIGHPASS (2 * pi * 10) (1 / 1000) 0 \<and>
   evaluateFrequencyResponse_sum
     (map float_value
        (naturalResponseCoefficients (butterworth 1 LOWPASS (2 * pi * 10) (1 / 1000) 0)))
     (0 * (1 / 1000)) \<noteq> 0 \<and>
   evaluateFrequencyResponse_sum
     (map float_value
        (naturalResponseCoefficients (butterworth 1 HIGHPASS (2 * pi * 10) (1 / 1000) 0)))
     (pi / (1 / 1000) * (1 / 1000)) \<noteq> 0"
proof -
  have ts: "(1 / 1000 :: real) \<noteq> 0" by simp
  note t = tan_pi_100
  from gain_LOWPASS_1 [OF ts refl t] gain_HIGHPASS_1 [OF ts refl t]
    design_order_gain_LOWPASS_1 [OF ts refl t] design_order_gain_HIGHPASS_1 [OF ts refl t]
    butterworth_divisors_nonzero_1 [OF ts refl t, of LOWPASS 0]
    butterworth_divisors_nonzero_1 [OF ts refl t, of HIGHPASS 0]
    gain_denominator_LOWPASS_1 [OF ts refl t] gain_denominator_HIGHPASS_1 [OF ts refl t]
  show ?thesis by (simp only: One_nat_def simp_thms)
qed

end
